theory Spec2Isabelle
  imports Main
begin

section \<open>Text primitives\<close>

text \<open>
  Python strings are modelled as \<^typ>\<open>string\<close>; a character stands for a code point
  below 256.  \<open>isspace\<close>, \<open>lower\<close> and \<open>strip\<close> are \<open>str.isspace\<close>, \<open>str.lower\<close> and
  \<open>str.strip\<close> on that range.
\<close>

definition isspace :: "char \<Rightarrow> bool" where
  "isspace c = (c \<in> set [CHR 0x09, CHR 0x0A, CHR 0x0B, CHR 0x0C, CHR 0x0D,
                          CHR 0x1C, CHR 0x1D, CHR 0x1E, CHR 0x1F, CHR 0x20,
                          CHR 0x85, CHR 0xA0])"

definition lower_char :: "char \<Rightarrow> char" where
  "lower_char c =
     (let n = (of_char c :: nat)
      in if (65 \<le> n \<and> n \<le> 90) \<or> (192 \<le> n \<and> n \<le> 214) \<or> (216 \<le> n \<and> n \<le> 222)
         then char_of (n + 32) else c)"

definition lower :: "string \<Rightarrow> string" where
  "lower s = map lower_char s"

definition lstrip :: "string \<Rightarrow> string" where
  "lstrip s = dropWhile isspace s"

definition rstrip :: "string \<Rightarrow> string" where
  "rstrip s = rev (dropWhile isspace (rev s))"

definition strip :: "string \<Rightarrow> string" where
  "strip s = rstrip (lstrip s)"

fun startswith :: "string \<Rightarrow> string \<Rightarrow> bool" where
  "startswith s [] = True"
| "startswith [] (p # ps) = False"
| "startswith (c # cs) (p # ps) = (c = p \<and> startswith cs ps)"

text \<open>\<open>str_in kw s\<close> is Python's \<open>kw in s\<close> on strings: \<open>kw\<close> occurs in \<open>s\<close> as a
  contiguous substring.\<close>

fun str_in :: "string \<Rightarrow> string \<Rightarrow> bool" where
  "str_in kw [] = (kw = [])"
| "str_in kw (c # cs) = (startswith (c # cs) kw \<or> str_in kw cs)"

definition digit_char :: "nat \<Rightarrow> char" where
  "digit_char d = char_of (48 + d)"

function str_nat :: "nat \<Rightarrow> string" where
  "str_nat n = (if n < 10 then [digit_char n] else str_nat (n div 10) @ [digit_char (n mod 10)])"
  by pat_completeness auto
termination
  by (relation "measure (\<lambda>n. n)") auto

declare str_nat.simps [simp del]

definition str_int :: "int \<Rightarrow> string" where
  "str_int i = (if i < 0 then CHR ''-'' # str_nat (nat (- i)) else str_nat (nat i))"


section \<open>Actions, errors and wrapper configuration\<close>

datatype Action = ALLOW | BLOCK | MODIFY | REQUERY

fun Action_value :: "Action \<Rightarrow> string" where
  "Action_value ALLOW = ''ALLOW''"
| "Action_value BLOCK = ''BLOCK''"
| "Action_value MODIFY = ''MODIFY''"
| "Action_value REQUERY = ''REQUERY''"

datatype error =
    ValueError string
  | IndexError
  | HTTPException nat string

text \<open>
  A wrapper configuration block is a dictionary; the three keys the wrappers read are
  optional fields, a missing key is \<open>None\<close> and the empty dictionary has no key.
\<close>

record WrapperConfig =
  cfg_banned_keywords :: "string list option"
  cfg_k :: "int option"
  cfg_max_queries :: "int option"

definition empty_config :: WrapperConfig where
  "empty_config = \<lparr>cfg_banned_keywords = None, cfg_k = None, cfg_max_queries = None\<rparr>"

record Config =
  cfg_model_name :: "string option"
  cfg_default :: "string option"
  cfg_keyword :: WrapperConfig
  cfg_history :: WrapperConfig
  cfg_query_budget :: WrapperConfig

definition get_wrapper_config :: "Config \<Rightarrow> string \<Rightarrow> WrapperConfig" where
  "get_wrapper_config cfg wrapper_name =
     (if wrapper_name = ''keyword'' then cfg_keyword cfg
      else if wrapper_name = ''history'' then cfg_history cfg
      else if wrapper_name = ''query_budget'' then cfg_query_budget cfg
      else empty_config)"


section \<open>The wrappers\<close>

datatype Wrapper =
    NoopWrapper
  | KeywordWrapper "string list"
  | HistoryWrapper int "string list"
  | QueryBudgetWrapper int int

datatype WrapperState =
    Stateless
  | KeywordState "string list"
  | HistoryState int "string list"
  | QueryBudgetState int int

definition BLOCK_MESSAGE :: string where
  "BLOCK_MESSAGE = ''[Blocked by keyword wrapper]''"

definition KeywordWrapper_init :: "WrapperConfig \<Rightarrow> Wrapper" where
  "KeywordWrapper_init config =
     KeywordWrapper (map lower (case cfg_banned_keywords config of None \<Rightarrow> [] | Some ks \<Rightarrow> ks))"

definition HistoryWrapper_init :: "WrapperConfig \<Rightarrow> Wrapper" where
  "HistoryWrapper_init config =
     HistoryWrapper (case cfg_k config of None \<Rightarrow> 3 | Some k \<Rightarrow> k) []"

definition QueryBudgetWrapper_init :: "WrapperConfig \<Rightarrow> Wrapper" where
  "QueryBudgetWrapper_init config =
     QueryBudgetWrapper (case cfg_max_queries config of None \<Rightarrow> 2 | Some m \<Rightarrow> m) 0"

definition get_wrapper :: "string \<Rightarrow> WrapperConfig \<Rightarrow> error + Wrapper" where
  "get_wrapper name config =
     (if name = ''noop'' then Inr NoopWrapper
      else if name = ''keyword'' then Inr (KeywordWrapper_init config)
      else if name = ''history'' then Inr (HistoryWrapper_init config)
      else if name = ''query_budget'' then Inr (QueryBudgetWrapper_init config)
      else Inl (ValueError (''Unknown wrapper: '' @ name)))"

fun reset :: "Wrapper \<Rightarrow> Wrapper" where
  "reset NoopWrapper = NoopWrapper"
| "reset (KeywordWrapper kws) = KeywordWrapper kws"
| "reset (HistoryWrapper k buf) = HistoryWrapper k []"
| "reset (QueryBudgetWrapper m c) = QueryBudgetWrapper m 0"

fun get_state :: "Wrapper \<Rightarrow> WrapperState" where
  "get_state NoopWrapper = Stateless"
| "get_state (KeywordWrapper kws) = KeywordState kws"
| "get_state (HistoryWrapper k buf) = HistoryState k buf"
| "get_state (QueryBudgetWrapper m c) = QueryBudgetState c m"

text \<open>The \<open>for kw in self._keywords\<close> loop of \<open>KeywordWrapper.step\<close>.\<close>

fun keyword_scan :: "string list \<Rightarrow> string \<Rightarrow> string \<Rightarrow> Action \<times> string" where
  "keyword_scan [] prompt_lower model_output = (ALLOW, model_output)"
| "keyword_scan (kw # kws) prompt_lower model_output =
     (if str_in kw prompt_lower then (BLOCK, BLOCK_MESSAGE)
      else keyword_scan kws prompt_lower model_output)"

text \<open>\<open>list.pop(0)\<close>, which raises on the empty list.\<close>

fun pop0 :: "'a list \<Rightarrow> error + 'a list" where
  "pop0 [] = Inl IndexError"
| "pop0 (x # xs) = Inr xs"

fun step :: "Wrapper \<Rightarrow> string \<Rightarrow> string \<Rightarrow> int \<Rightarrow> error + ((Action \<times> string) \<times> Wrapper)" where
  "step NoopWrapper user_prompt model_output call_index =
     Inr ((ALLOW, model_output), NoopWrapper)"
| "step (KeywordWrapper kws) user_prompt model_output call_index =
     Inr (keyword_scan kws (lower user_prompt) model_output, KeywordWrapper kws)"
| "step (HistoryWrapper k buf) user_prompt model_output call_index =
     (let out_stripped = strip model_output
      in if out_stripped = [] then Inr ((REQUERY, []), HistoryWrapper k buf)
         else if out_stripped \<in> set buf then Inr ((REQUERY, []), HistoryWrapper k buf)
         else (let buf1 = buf @ [out_stripped]
               in if int (length buf1) > k
                  then (case pop0 buf1 of
                          Inl e \<Rightarrow> Inl e
                        | Inr buf2 \<Rightarrow> Inr ((ALLOW, model_output), HistoryWrapper k buf2))
                  else Inr ((ALLOW, model_output), HistoryWrapper k buf1)))"
| "step (QueryBudgetWrapper m c) user_prompt model_output call_index =
     Inr ((ALLOW, model_output), QueryBudgetWrapper m (call_index + 1))"


section \<open>The world: model client and trace log\<close>

record TraceRecord =
  tr_timestamp :: string
  tr_model_name :: string
  tr_wrapper_name :: string
  tr_wrapper_config :: WrapperConfig
  tr_user_prompt :: string
  tr_raw_model_outputs :: "string list"
  tr_wrapper_decisions :: "string list"
  tr_final_output :: string
  tr_total_model_calls :: nat
  tr_wrapper_state :: WrapperState

text \<open>
  The world outside the orchestrator.  \<open>model_complete w n p\<close> is what the model client
  does on its \<open>n\<close>-th call (counted from 0) with prompt \<open>p\<close>: \<open>Inr\<close> a text, or \<open>Inl\<close> the
  message of the exception it raises.  \<open>model_calls\<close> counts the calls made to the model
  client.  \<open>step_log\<close> has one entry for every call of a wrapper's \<open>step\<close>, in order: the
  action it returned, or the error it raised.  \<open>traces\<close> is the content of the JSONL trace
  file, one element per line; \<open>now\<close> is the clock reading.
\<close>

record World =
  model_complete :: "nat \<Rightarrow> string \<Rightarrow> string + string"
  model_calls :: nat
  step_log :: "(error + Action) list"
  now :: string
  traces :: "TraceRecord list"

definition call_model :: "string \<Rightarrow> World \<Rightarrow> (string + string) \<times> World" where
  "call_model prompt world =
     (model_complete world (model_calls world) prompt,
      world\<lparr>model_calls := Suc (model_calls world)\<rparr>)"

definition call_step ::
  "Wrapper \<Rightarrow> string \<Rightarrow> string \<Rightarrow> int \<Rightarrow> World
     \<Rightarrow> (error + ((Action \<times> string) \<times> Wrapper)) \<times> World" where
  "call_step wrapper user_prompt model_output call_index world =
     (let r = step wrapper user_prompt model_output call_index
      in (r, world\<lparr>step_log := step_log world @
                 [case r of Inl e \<Rightarrow> Inl e | Inr ((action, text), wrapper1) \<Rightarrow> Inr action]\<rparr>))"

definition log_trace :: "TraceRecord \<Rightarrow> World \<Rightarrow> World" where
  "log_trace rec world = world\<lparr>traces := traces world @ [rec]\<rparr>"


section \<open>The orchestrator\<close>

record QueryRequest =
  req_prompt :: string
  req_wrapper_name :: "string option"
  req_max_queries :: "int option"

record QueryResponse =
  final_output :: string
  wrapper_decision :: string
  decision_summary :: string
  model_call_count :: nat
  raw_outputs :: "string list"
  decisions_sequence :: "string list"

text \<open>What the \<open>while\<close> loop of \<open>query\<close> leaves in its local variables.\<close>

record RequestRun =
  run_final_output :: string
  run_raw_outputs :: "string list"
  run_decisions_sequence :: "string list"
  run_wrapper :: Wrapper

text \<open>
  The \<open>while call_index < max_calls\<close> loop.  \<open>outs\<close>, \<open>decs\<close> and \<open>fin\<close> are the local
  variables \<open>raw_outputs\<close>, \<open>decisions_sequence\<close> and \<open>final_output\<close>.  An exception of the
  model client becomes \<open>HTTPException 502\<close> and ends the request.
\<close>

function query_loop ::
  "string \<Rightarrow> int \<Rightarrow> Wrapper \<Rightarrow> string list \<Rightarrow> string list \<Rightarrow> string \<Rightarrow> int \<Rightarrow> World
     \<Rightarrow> (error + RequestRun) \<times> World" where
  "query_loop prompt max_calls wrapper outs decs fin call_index world =
     (if call_index < max_calls then
        (case call_model prompt world of
           (Inl e, world1) \<Rightarrow> (Inl (HTTPException 502 e), world1)
         | (Inr out, world1) \<Rightarrow>
             (case call_step wrapper prompt out call_index world1 of
                (Inl e, world2) \<Rightarrow> (Inl e, world2)
              | (Inr ((action, output_to_use), wrapper1), world2) \<Rightarrow>
                  (let outs1 = outs @ [out];
                       decs1 = decs @ [Action_value action]
                   in if action = ALLOW then
                        (Inr \<lparr>run_final_output = output_to_use, run_raw_outputs = outs1,
                              run_decisions_sequence = decs1, run_wrapper = wrapper1\<rparr>, world2)
                      else if action = BLOCK then
                        (Inr \<lparr>run_final_output = output_to_use, run_raw_outputs = outs1,
                              run_decisions_sequence = decs1, run_wrapper = wrapper1\<rparr>, world2)
                      else if action = MODIFY then
                        (Inr \<lparr>run_final_output = output_to_use, run_raw_outputs = outs1,
                              run_decisions_sequence = decs1, run_wrapper = wrapper1\<rparr>, world2)
                      else if call_index + 1 \<ge> max_calls then
                        (Inr \<lparr>run_final_output = (if outs1 \<noteq> [] then last outs1 else []),
                              run_raw_outputs = outs1,
                              run_decisions_sequence = decs1, run_wrapper = wrapper1\<rparr>, world2)
                      else query_loop prompt max_calls wrapper1 outs1 decs1 fin
                             (call_index + 1) world2)))
      else (Inr \<lparr>run_final_output = fin, run_raw_outputs = outs,
                 run_decisions_sequence = decs, run_wrapper = wrapper\<rparr>, world))"
  by pat_completeness auto
termination
  by (relation "measure (\<lambda>(prompt, max_calls, wrapper, outs, decs, fin, call_index, world).
                           nat (max_calls - call_index))") auto

declare query_loop.simps [simp del]

text \<open>The call budget \<open>max_calls\<close> that \<open>query\<close> computes before the loop.\<close>

definition resolve_max_calls :: "Config \<Rightarrow> QueryRequest \<Rightarrow> string \<Rightarrow> WrapperConfig \<Rightarrow> int" where
  "resolve_max_calls cfg req wrapper_name wrapper_config =
     (let max_queries = (case cfg_max_queries (cfg_query_budget cfg) of None \<Rightarrow> 2 | Some m \<Rightarrow> m);
          history_k = (case cfg_k (cfg_history cfg) of None \<Rightarrow> 3 | Some k \<Rightarrow> k)
      in if wrapper_name = ''query_budget'' then
           (case req_max_queries req of
              None \<Rightarrow> (case cfg_max_queries wrapper_config of None \<Rightarrow> max_queries | Some m \<Rightarrow> m)
            | Some user_limit \<Rightarrow>
                if 1 \<le> user_limit \<and> user_limit \<le> 10 then user_limit
                else (case cfg_max_queries wrapper_config of None \<Rightarrow> max_queries | Some m \<Rightarrow> m))
         else if wrapper_name = ''history'' then
           max max_queries ((case cfg_k wrapper_config of None \<Rightarrow> history_k | Some k \<Rightarrow> k) + 2)
         else max_queries)"

text \<open>\<open>req.wrapper_name or cfg.get("wrappers", {}).get("default", "noop")\<close>: a missing or
  empty name falls back to the configured default.\<close>

definition resolve_wrapper_name :: "Config \<Rightarrow> QueryRequest \<Rightarrow> string" where
  "resolve_wrapper_name cfg req =
     (let default_name = (case cfg_default cfg of None \<Rightarrow> ''noop'' | Some d \<Rightarrow> d)
      in case req_wrapper_name req of
           None \<Rightarrow> default_name
         | Some n \<Rightarrow> if n \<noteq> [] then n else default_name)"

definition summarize :: "string \<Rightarrow> string \<Rightarrow> string list \<Rightarrow> nat \<Rightarrow> int \<Rightarrow> string" where
  "summarize wrapper_name last_decision decs num_calls max_calls =
     (if wrapper_name = ''keyword'' \<and> last_decision = Action_value BLOCK then
        ''Blocked: your prompt contained a banned or harmful keyword.''
      else if wrapper_name = ''keyword'' \<and> last_decision = Action_value ALLOW then
        ''Allowed: no banned keywords detected in your prompt.''
      else if wrapper_name = ''noop'' then
        ''No filter applied (baseline). Response was not checked for safety.''
      else if wrapper_name = ''history'' then
        (if Action_value REQUERY \<in> set decs then
           ''History: re-queried due to empty or duplicate output; allowed after ''
             @ str_int (int num_calls) @ '' call(s).''
         else ''History: response allowed after 1 call (no empty or duplicate).'')
      else if wrapper_name = ''query_budget'' then
        ''Query budget: up to '' @ str_int max_calls @ '' call(s); used ''
          @ str_int (int num_calls) @ ''.''
      else ''Decision: '' @ last_decision @ ''.'')"

definition skip_response :: QueryResponse where
  "skip_response =
     \<lparr>final_output = ''[Empty prompt]'',
      wrapper_decision = ''SKIP'',
      decision_summary = ''No prompt entered; no model call. No safety decision applied.'',
      model_call_count = 0,
      raw_outputs = [],
      decisions_sequence = []\<rparr>"

text \<open>The part of \<open>query\<close> from the loop to the response.\<close>

definition query_run ::
  "string \<Rightarrow> string \<Rightarrow> string \<Rightarrow> WrapperConfig \<Rightarrow> int \<Rightarrow> Wrapper \<Rightarrow> World
     \<Rightarrow> (error + QueryResponse) \<times> World" where
  "query_run prompt model_name wrapper_name wrapper_config max_calls wrapper world =
     (case query_loop prompt max_calls wrapper [] [] [] 0 world of
        (Inl e, world1) \<Rightarrow> (Inl e, world1)
      | (Inr run, world1) \<Rightarrow>
          (let decs = run_decisions_sequence run;
               outs = run_raw_outputs run;
               last_decision = (if decs \<noteq> [] then last decs else Action_value ALLOW);
               num_calls = length outs;
               summary = summarize wrapper_name last_decision decs num_calls max_calls;
               world2 = log_trace
                 \<lparr>tr_timestamp = now world1,
                  tr_model_name = model_name,
                  tr_wrapper_name = wrapper_name,
                  tr_wrapper_config = wrapper_config,
                  tr_user_prompt = prompt,
                  tr_raw_model_outputs = outs,
                  tr_wrapper_decisions = decs,
                  tr_final_output = run_final_output run,
                  tr_total_model_calls = length outs,
                  tr_wrapper_state = get_state (run_wrapper run)\<rparr> world1
           in (Inr \<lparr>final_output = run_final_output run,
                    wrapper_decision = last_decision,
                    decision_summary = summary,
                    model_call_count = length outs,
                    raw_outputs = outs,
                    decisions_sequence = decs\<rparr>, world2)))"

definition query :: "Config \<Rightarrow> QueryRequest \<Rightarrow> World \<Rightarrow> (error + QueryResponse) \<times> World" where
  "query cfg req world =
     (let model_name = (case cfg_model_name cfg of
                          None \<Rightarrow> ''google/gemini-2.5-flash-lite'' | Some n \<Rightarrow> n);
          wrapper_name = resolve_wrapper_name cfg req;
          wrapper_config = get_wrapper_config cfg wrapper_name;
          prompt = strip (req_prompt req)
      in if prompt = [] then (Inr skip_response, world)
         else
           (case get_wrapper wrapper_name wrapper_config of
              Inl e \<Rightarrow> (Inl e, world)
            | Inr wrapper0 \<Rightarrow>
                (let wrapper = reset wrapper0;
                     max_calls = resolve_max_calls cfg req wrapper_name wrapper_config
                 in if wrapper_name = ''keyword'' then
                      (case call_step wrapper prompt [] 0 world of
                         (Inl e, world1) \<Rightarrow> (Inl e, world1)
                       | (Inr ((pre_action, pre_output), wrapper1), world1) \<Rightarrow>
                           if pre_action = BLOCK then
                             (Inr \<lparr>final_output = pre_output,
                                   wrapper_decision = Action_value BLOCK,
                                   decision_summary = ''Blocked: your prompt contained a banned or harmful keyword. No model call made.'',
                                   model_call_count = 0,
                                   raw_outputs = [],
                                   decisions_sequence = [Action_value BLOCK]\<rparr>,
                              log_trace
                                \<lparr>tr_timestamp = now world1,
                                 tr_model_name = model_name,
                                 tr_wrapper_name = wrapper_name,
                                 tr_wrapper_config = wrapper_config,
                                 tr_user_prompt = prompt,
                                 tr_raw_model_outputs = [],
                                 tr_wrapper_decisions = [Action_value BLOCK],
                                 tr_final_output = pre_output,
                                 tr_total_model_calls = 0,
                                 tr_wrapper_state = get_state wrapper1\<rparr> world1)
                           else query_run prompt model_name wrapper_name wrapper_config
                                  max_calls wrapper1 world1)
                    else query_run prompt model_name wrapper_name wrapper_config
                           max_calls wrapper world)))"


section \<open>Auxiliary definitions for the specification\<close>

text \<open>\<open>advance world n entries\<close> is \<open>world\<close> after \<open>n\<close> more calls of the model client and
  the calls of \<open>step\<close> logged in \<open>entries\<close>; clock and trace file are untouched.\<close>

definition advance :: "World \<Rightarrow> nat \<Rightarrow> (error + Action) list \<Rightarrow> World" where
  "advance world n entries =
     world\<lparr>model_calls := model_calls world + n, step_log := step_log world @ entries\<rparr>"

text \<open>A sequence of \<open>step\<close> calls on one wrapper instance, each input a triple of prompt,
  model output and call index; the results are collected in order.\<close>

fun run_steps ::
  "Wrapper \<Rightarrow> (string \<times> string \<times> int) list \<Rightarrow> error + ((Action \<times> string) list \<times> Wrapper)" where
  "run_steps w [] = Inr ([], w)"
| "run_steps w ((p, out, ci) # rest) =
     (case step w p out ci of
        Inl e \<Rightarrow> Inl e
      | Inr (r, w1) \<Rightarrow>
          (case run_steps w1 rest of
             Inl e \<Rightarrow> Inl e
           | Inr (rs, w2) \<Rightarrow> Inr (r # rs, w2)))"

text \<open>The stripped model outputs of the calls that were answered ALLOW, oldest first.\<close>

fun allowed_outputs :: "(string \<times> string \<times> int) list \<Rightarrow> (Action \<times> string) list \<Rightarrow> string list" where
  "allowed_outputs ((p, out, ci) # rest) ((a, t) # rs) =
     (if a = ALLOW then strip out # allowed_outputs rest rs else allowed_outputs rest rs)"
| "allowed_outputs inputs results = []"

text \<open>The call budget of a request: \<open>max_calls\<close> as \<open>query\<close> computes it from the
  configuration and the request.\<close>

definition request_budget :: "Config \<Rightarrow> QueryRequest \<Rightarrow> int" where
  "request_budget cfg req =
     resolve_max_calls cfg req (resolve_wrapper_name cfg req)
       (get_wrapper_config cfg (resolve_wrapper_name cfg req))"

text \<open>The keyword pre-check answers BLOCK: the request runs under the Keyword wrapper and
  the lower-cased stripped prompt contains a lower-cased banned keyword.\<close>

definition precheck_blocks :: "Config \<Rightarrow> QueryRequest \<Rightarrow> bool" where
  "precheck_blocks cfg req =
     (resolve_wrapper_name cfg req = ''keyword'' \<and>
      list_ex (\<lambda>kw. str_in (lower kw) (lower (strip (req_prompt req))))
        (case cfg_banned_keywords (cfg_keyword cfg) of None \<Rightarrow> [] | Some ks \<Rightarrow> ks))"

text \<open>A configuration, and a world whose model client answers from a script (and with the
  empty text once the script is used up), for concrete runs.\<close>

definition example_config :: Config where
  "example_config =
     \<lparr>cfg_model_name = None,
      cfg_default = None,
      cfg_keyword = \<lparr>cfg_banned_keywords = Some [''hack'', ''Exploit'', '' malware''],
                     cfg_k = None,
                     cfg_max_queries = None\<rparr>,
      cfg_history = \<lparr>cfg_banned_keywords = None, cfg_k = Some 3, cfg_max_queries = None\<rparr>,
      cfg_query_budget = \<lparr>cfg_banned_keywords = None, cfg_k = None,
                          cfg_max_queries = Some 2\<rparr>\<rparr>"

definition scripted_world :: "(string + string) list \<Rightarrow> World" where
  "scripted_world script =
     \<lparr>model_complete = (\<lambda>n p. if n < length script then script ! n else Inr []),
      model_calls = 0,
      step_log = [],
      now = ''2026-01-01T00:00:00+00:00'',
      traces = []\<rparr>"

definition request :: "string \<Rightarrow> string \<Rightarrow> QueryRequest" where
  "request prompt name =
     \<lparr>req_prompt = prompt, req_wrapper_name = Some name, req_max_queries = None\<rparr>"


section \<open>Basic facts\<close>

lemma startswith_iff: "startswith s p \<longleftrightarrow> (\<exists>ss. s = p @ ss)"
  by (induction s p rule: startswith.induct) auto

lemma str_in_iff: "str_in kw s \<longleftrightarrow> (\<exists>ps ss. s = ps @ kw @ ss)"
proof (induction s)
  case Nil
  then show ?case by auto
next
  case (Cons c cs)
  show ?case
  proof
    assume "str_in kw (c # cs)"
    then consider "startswith (c # cs) kw" | "str_in kw cs" by auto
    then show "\<exists>ps ss. c # cs = ps @ kw @ ss"
    proof cases
      case 1
      then obtain ss where "c # cs = kw @ ss" by (auto simp: startswith_iff)
      then have "c # cs = [] @ kw @ ss" by simp
      then show ?thesis by blast
    next
      case 2
      then obtain ps ss where "cs = ps @ kw @ ss" using Cons.IH by blast
      then have "c # cs = (c # ps) @ kw @ ss" by simp
      then show ?thesis by blast
    qed
  next
    assume "\<exists>ps ss. c # cs = ps @ kw @ ss"
    then obtain ps ss where e: "c # cs = ps @ kw @ ss" by blast
    show "str_in kw (c # cs)"
    proof (cases ps)
      case Nil
      then have "startswith (c # cs) kw" using e by (auto simp: startswith_iff)
      then show ?thesis by simp
    next
      case (Cons p ps')
      then have "cs = ps' @ kw @ ss" using e by simp
      then have "str_in kw cs" using Cons.IH by blast
      then show ?thesis by simp
    qed
  qed
qed

lemma pop0_snoc: "pop0 (xs @ [x]) = Inr (tl (xs @ [x]))"
  by (cases xs) auto

lemma history_step:
  "step (HistoryWrapper k buf) user_prompt model_output call_index =
     (if strip model_output = [] then Inr ((REQUERY, []), HistoryWrapper k buf)
      else if strip model_output \<in> set buf then Inr ((REQUERY, []), HistoryWrapper k buf)
      else Inr ((ALLOW, model_output),
                HistoryWrapper k (if int (length buf) + 1 > k
                                  then tl (buf @ [strip model_output])
                                  else buf @ [strip model_output])))"
  by (simp add: Let_def pop0_snoc)

lemma step_never_raises: "\<exists>r. step w user_prompt model_output call_index = Inr r"
  by (cases w) (simp_all add: Let_def pop0_snoc)

lemma advance_advance:
  "advance (advance world n xs) m ys = advance world (n + m) (xs @ ys)"
  by (simp add: advance_def)

lemma advance_0: "advance world 0 [] = world"
  by (simp add: advance_def)

lemma query_loop_exit:
  "\<not> call_index < max_calls \<Longrightarrow>
   query_loop prompt max_calls wrapper outs decs fin call_index world =
     (Inr \<lparr>run_final_output = fin, run_raw_outputs = outs,
           run_decisions_sequence = decs, run_wrapper = wrapper\<rparr>, world)"
  by (subst query_loop.simps) simp

lemma query_loop_fail:
  "call_index < max_calls \<Longrightarrow> model_complete world (model_calls world) prompt = Inl e \<Longrightarrow>
   query_loop prompt max_calls wrapper outs decs fin call_index world =
     (Inl (HTTPException 502 e), advance world (Suc 0) [])"
  by (subst query_loop.simps) (simp add: call_model_def advance_def)

lemma query_loop_terminal:
  "call_index < max_calls \<Longrightarrow> model_complete world (model_calls world) prompt = Inr out \<Longrightarrow>
   step wrapper prompt out call_index = Inr ((a, otx), wrapper1) \<Longrightarrow> a \<noteq> REQUERY \<Longrightarrow>
   query_loop prompt max_calls wrapper outs decs fin call_index world =
     (Inr \<lparr>run_final_output = otx, run_raw_outputs = outs @ [out],
           run_decisions_sequence = decs @ [Action_value a], run_wrapper = wrapper1\<rparr>,
      advance world (Suc 0) [Inr a])"
  by (subst query_loop.simps) (cases a; simp add: call_model_def call_step_def advance_def)

lemma query_loop_exhausted:
  "call_index < max_calls \<Longrightarrow> model_complete world (model_calls world) prompt = Inr out \<Longrightarrow>
   step wrapper prompt out call_index = Inr ((REQUERY, otx), wrapper1) \<Longrightarrow>
   call_index + 1 \<ge> max_calls \<Longrightarrow>
   query_loop prompt max_calls wrapper outs decs fin call_index world =
     (Inr \<lparr>run_final_output = out, run_raw_outputs = outs @ [out],
           run_decisions_sequence = decs @ [''REQUERY''], run_wrapper = wrapper1\<rparr>,
      advance world (Suc 0) [Inr REQUERY])"
  by (subst query_loop.simps) (simp add: call_model_def call_step_def advance_def)

lemma query_loop_requery:
  "call_index < max_calls \<Longrightarrow> model_complete world (model_calls world) prompt = Inr out \<Longrightarrow>
   step wrapper prompt out call_index = Inr ((REQUERY, otx), wrapper1) \<Longrightarrow>
   \<not> call_index + 1 \<ge> max_calls \<Longrightarrow>
   query_loop prompt max_calls wrapper outs decs fin call_index world =
     query_loop prompt max_calls wrapper1 (outs @ [out]) (decs @ [''REQUERY'']) fin (call_index + 1)
       (advance world (Suc 0) [Inr REQUERY])"
  by (subst query_loop.simps) (simp add: call_model_def call_step_def advance_def)


lemma query_loop_outcome:
  "query_loop prompt max_calls wrapper outs decs fin call_index world = (res, world') \<Longrightarrow>
   (\<not> call_index < max_calls \<and> world' = world \<and>
      res = Inr \<lparr>run_final_output = fin, run_raw_outputs = outs,
                 run_decisions_sequence = decs, run_wrapper = wrapper\<rparr>)
   \<or> (\<exists>n e. int n < max_calls - call_index \<and> res = Inl (HTTPException 502 e) \<and>
         world' = advance world (Suc n) (replicate n (Inr REQUERY)))
   \<or> (\<exists>n a otx new wrapper'.
         int n < max_calls - call_index \<and> a \<noteq> REQUERY \<and> length new = Suc n \<and>
         res = Inr \<lparr>run_final_output = otx, run_raw_outputs = outs @ new,
                    run_decisions_sequence = decs @ replicate n ''REQUERY'' @ [Action_value a],
                    run_wrapper = wrapper'\<rparr> \<and>
         world' = advance world (Suc n) (replicate n (Inr REQUERY) @ [Inr a]))
   \<or> (\<exists>n new wrapper'.
         call_index < max_calls \<and> int n = max_calls - call_index \<and> length new = n \<and>
         res = Inr \<lparr>run_final_output = last new, run_raw_outputs = outs @ new,
                    run_decisions_sequence = decs @ replicate n ''REQUERY'',
                    run_wrapper = wrapper'\<rparr> \<and>
         world' = advance world n (replicate n (Inr REQUERY)))"
proof (induction "nat (max_calls - call_index)"
         arbitrary: call_index wrapper outs decs world)
  case 0
  then have "\<not> call_index < max_calls" by simp
  with 0 show ?case by (auto simp add: query_loop_exit)
next
  case (Suc m)
  then have lt: "call_index < max_calls" by linarith
  show ?case
  proof (cases "model_complete world (model_calls world) prompt")
    case (Inl e)
    have "res = Inl (HTTPException 502 e) \<and> world' = advance world (Suc 0) (replicate 0 (Inr REQUERY))"
      using Suc.prems lt Inl by (simp add: query_loop_fail)
    moreover have "int 0 < max_calls - call_index" using lt by simp
    ultimately show ?thesis by blast
  next
    case (Inr out)
    obtain a otx wrapper1 where st: "step wrapper prompt out call_index = Inr ((a, otx), wrapper1)"
      using step_never_raises[of wrapper prompt out call_index] by auto
    show ?thesis
    proof (cases "a = REQUERY")
      case False
      have "res = Inr \<lparr>run_final_output = otx, run_raw_outputs = outs @ [out],
                    run_decisions_sequence = decs @ replicate 0 ''REQUERY'' @ [Action_value a],
                    run_wrapper = wrapper1\<rparr> \<and>
            world' = advance world (Suc 0) (replicate 0 (Inr REQUERY) @ [Inr a])"
        using Suc.prems lt Inr st False by (simp add: query_loop_terminal)
      moreover have "int 0 < max_calls - call_index" "length [out] = Suc 0" using lt by simp_all
      ultimately show ?thesis using False by blast
    next
      case True
      note st' = st[unfolded True]
      show ?thesis
      proof (cases "call_index + 1 \<ge> max_calls")
        case True
        have "res = Inr \<lparr>run_final_output = last [out], run_raw_outputs = outs @ [out],
                    run_decisions_sequence = decs @ replicate (Suc 0) ''REQUERY'',
                    run_wrapper = wrapper1\<rparr> \<and>
            world' = advance world (Suc 0) (replicate (Suc 0) (Inr REQUERY))"
          using Suc.prems lt Inr st' True by (simp add: query_loop_exhausted)
        moreover have "int (Suc 0) = max_calls - call_index" "length [out] = Suc 0"
          using lt True by simp_all
        ultimately show ?thesis using lt by blast
      next
        case False
        let ?w2 = "advance world (Suc 0) [Inr REQUERY]"
        have rec: "query_loop prompt max_calls wrapper1 (outs @ [out]) (decs @ [''REQUERY'']) fin
                     (call_index + 1) ?w2 = (res, world')"
          using Suc.prems lt Inr st' False by (simp add: query_loop_requery)
        have m: "m = nat (max_calls - (call_index + 1))" using Suc.hyps(2) by linarith
        have lt2: "call_index + 1 < max_calls" using False by simp
        from Suc.hyps(1)[OF m rec] lt2
        consider
          (fail) n e where "int n < max_calls - (call_index + 1)" "res = Inl (HTTPException 502 e)"
              "world' = advance ?w2 (Suc n) (replicate n (Inr REQUERY))"
        | (stop) n a' otx' new wrapper' where "int n < max_calls - (call_index + 1)"
              "a' \<noteq> REQUERY" "length new = Suc n"
              "res = Inr \<lparr>run_final_output = otx', run_raw_outputs = (outs @ [out]) @ new,
                    run_decisions_sequence = (decs @ [''REQUERY'']) @ replicate n ''REQUERY'' @ [Action_value a'],
                    run_wrapper = wrapper'\<rparr>"
              "world' = advance ?w2 (Suc n) (replicate n (Inr REQUERY) @ [Inr a'])"
        | (exh) n new wrapper' where "int n = max_calls - (call_index + 1)" "length new = n"
              "res = Inr \<lparr>run_final_output = last new, run_raw_outputs = (outs @ [out]) @ new,
                    run_decisions_sequence = (decs @ [''REQUERY'']) @ replicate n ''REQUERY'',
                    run_wrapper = wrapper'\<rparr>"
              "world' = advance ?w2 n (replicate n (Inr REQUERY))"
          by blast
        then show ?thesis
        proof cases
          case fail
          have "int (Suc n) < max_calls - call_index" using fail(1) by simp
          moreover have "world' = advance world (Suc (Suc n)) (replicate (Suc n) (Inr REQUERY))"
            using fail(3) by (simp add: advance_advance)
          ultimately show ?thesis using fail(2) by blast
        next
          case stop
          have "int (Suc n) < max_calls - call_index" using stop(1) by simp
          moreover have "world' = advance world (Suc (Suc n)) (replicate (Suc n) (Inr REQUERY) @ [Inr a'])"
            using stop(5) by (simp add: advance_advance)
          moreover have "res = Inr \<lparr>run_final_output = otx', run_raw_outputs = outs @ (out # new),
                    run_decisions_sequence = decs @ replicate (Suc n) ''REQUERY'' @ [Action_value a'],
                    run_wrapper = wrapper'\<rparr>"
            using stop(4) by simp
          moreover have "length (out # new) = Suc (Suc n)" using stop(3) by simp
          ultimately show ?thesis using stop(2) by blast
        next
          case exh
          have n0: "n \<noteq> 0" using exh(1) False by auto
          then have ne: "new \<noteq> []" using exh(2) by auto
          have "int (Suc n) = max_calls - call_index" using exh(1) by simp
          moreover have "world' = advance world (Suc n) (replicate (Suc n) (Inr REQUERY))"
            using exh(4) by (simp add: advance_advance)
          moreover have "res = Inr \<lparr>run_final_output = last (out # new), run_raw_outputs = outs @ (out # new),
                    run_decisions_sequence = decs @ replicate (Suc n) ''REQUERY'',
                    run_wrapper = wrapper'\<rparr>"
            using exh(3) ne by simp
          moreover have "length (out # new) = Suc n" using exh(2) by simp
          ultimately show ?thesis using lt by blast
        qed
      qed
    qed
  qed
qed


lemma drop_window:
  "drop (length (drop (length xs - n) xs @ acc) - n) (drop (length xs - n) xs @ acc)
     = drop (length (xs @ acc) - n) (xs @ acc)"
  by (cases "length xs \<le> n") (simp_all add: add.commute)

lemma history_run_steps:
  "int (length buf) \<le> max 0 k \<Longrightarrow>
   \<exists>results buf'. run_steps (HistoryWrapper k buf) inputs = Inr (results, HistoryWrapper k buf') \<and>
      int (length buf') \<le> max 0 k \<and>
      buf' = drop (length (buf @ allowed_outputs inputs results) - nat k)
               (buf @ allowed_outputs inputs results)"
proof (induction inputs arbitrary: buf)
  case Nil
  then show ?case by auto
next
  case (Cons inp rest)
  obtain p out ci where inp: "inp = (p, out, ci)" by (cases inp) auto
  let ?s = "strip out"
  show ?case
  proof (cases "?s = [] \<or> ?s \<in> set buf")
    case True
    then have st: "step (HistoryWrapper k buf) p out ci = Inr ((REQUERY, []), HistoryWrapper k buf)"
      by (auto simp add: history_step simp del: step.simps)
    from Cons.IH[OF Cons.prems] obtain results buf' where
      r: "run_steps (HistoryWrapper k buf) rest = Inr (results, HistoryWrapper k buf')"
         "int (length buf') \<le> max 0 k"
         "buf' = drop (length (buf @ allowed_outputs rest results) - nat k)
               (buf @ allowed_outputs rest results)" by blast
    have "run_steps (HistoryWrapper k buf) (inp # rest) = Inr ((REQUERY, []) # results, HistoryWrapper k buf')"
      using st r(1) inp by simp
    moreover have "allowed_outputs (inp # rest) ((REQUERY, []) # results) = allowed_outputs rest results"
      using inp by simp
    ultimately show ?thesis using r(2,3) by metis
  next
    case False
    let ?b1 = "if int (length buf) + 1 > k then tl (buf @ [?s]) else buf @ [?s]"
    have st: "step (HistoryWrapper k buf) p out ci = Inr ((ALLOW, out), HistoryWrapper k ?b1)"
      using False by (auto simp add: history_step simp del: step.simps)
    have len: "int (length ?b1) \<le> max 0 k" using Cons.prems by auto
    have b1: "?b1 = drop (length (buf @ [?s]) - nat k) (buf @ [?s])"
    proof (cases "int (length buf) + 1 > k")
      case True
      then have d: "length (buf @ [?s]) - nat k = Suc 0" using Cons.prems by auto
      have "tl (buf @ [?s]) = drop (Suc 0) (buf @ [?s])" by (simp only: drop_Suc drop_0)
      then have "tl (buf @ [?s]) = drop (length (buf @ [?s]) - nat k) (buf @ [?s])"
        by (simp only: d)
      then show ?thesis using True by (simp only: if_True)
    next
      case False
      then show ?thesis by auto
    qed
    from Cons.IH[OF len] obtain results buf' where
      r: "run_steps (HistoryWrapper k ?b1) rest = Inr (results, HistoryWrapper k buf')"
         "int (length buf') \<le> max 0 k"
         "buf' = drop (length (?b1 @ allowed_outputs rest results) - nat k)
               (?b1 @ allowed_outputs rest results)" by blast
    have run: "run_steps (HistoryWrapper k buf) (inp # rest) = Inr ((ALLOW, out) # results, HistoryWrapper k buf')"
      using st r(1) inp by simp
    have acc: "allowed_outputs (inp # rest) ((ALLOW, out) # results) = ?s # allowed_outputs rest results"
      using inp by simp
    let ?acc = "allowed_outputs rest results"
    have "drop (length (?b1 @ ?acc) - nat k) (?b1 @ ?acc)
            = drop (length (buf @ ?s # ?acc) - nat k) (buf @ ?s # ?acc)"
      using drop_window[of "buf @ [?s]" "nat k" ?acc] by (simp only: b1 append_assoc append_Cons append_Nil)
    then show ?thesis using run acc r(2,3) by metis
  qed
qed



section \<open>Paths through the orchestrator\<close>

lemma keyword_scan_eq:
  "keyword_scan kws pl out =
     (if list_ex (\<lambda>kw. str_in kw pl) kws then (BLOCK, BLOCK_MESSAGE) else (ALLOW, out))"
  by (induction kws) auto

lemma advance_fields [simp]:
  "model_calls (advance world n entries) = model_calls world + n"
  "step_log (advance world n entries) = step_log world @ entries"
  "traces (advance world n entries) = traces world"
  "now (advance world n entries) = now world"
  "model_complete (advance world n entries) = model_complete world"
  by (simp_all add: advance_def)

lemma log_trace_fields [simp]:
  "model_calls (log_trace rec world) = model_calls world"
  "step_log (log_trace rec world) = step_log world"
  "traces (log_trace rec world) = traces world @ [rec]"
  by (simp_all add: log_trace_def)

lemma query_loop_run:
  assumes "query_loop prompt max_calls wrapper [] [] fin 0 world = (Inr run, world')"
  obtains acts where
    "world' = advance world (length acts) (map Inr acts)"
    "run_decisions_sequence run = map Action_value acts"
    "length (run_raw_outputs run) = length acts"
    "int (length acts) \<le> max 0 max_calls"
    "acts = [] \<Longrightarrow> run_final_output run = fin"
    "acts \<noteq> [] \<Longrightarrow> last acts = REQUERY \<Longrightarrow>
       acts = replicate (nat max_calls) REQUERY \<and> 0 < max_calls \<and>
       run_final_output run = last (run_raw_outputs run)"
proof -
  note o = query_loop_outcome[OF assms]
  show thesis using o
  proof (elim disjE exE conjE, goal_cases)
    case 1
    then have "run = \<lparr>run_final_output = fin, run_raw_outputs = [],
               run_decisions_sequence = [], run_wrapper = wrapper\<rparr>" by simp
    with 1 show ?case
      by (intro that[of "[]"]) (simp_all add: advance_0)
  next
    case (2 n e)
    then show ?case by simp
  next
    case (3 n a otx new wrapper')
    then have r: "run = \<lparr>run_final_output = otx, run_raw_outputs = new,
               run_decisions_sequence = replicate n ''REQUERY'' @ [Action_value a],
               run_wrapper = wrapper'\<rparr>" by simp
    have w: "world' = advance world (Suc n) (replicate n (Inr REQUERY) @ [Inr a])"
      using 3 by simp
    have n: "int n < max_calls" using 3 by simp
    show ?case
    proof (rule that[of "replicate n REQUERY @ [a]"])
      show "world' = advance world (length (replicate n REQUERY @ [a])) (map Inr (replicate n REQUERY @ [a]))"
        using w by simp
      show "run_decisions_sequence run = map Action_value (replicate n REQUERY @ [a])"
        using r by simp
      show "length (run_raw_outputs run) = length (replicate n REQUERY @ [a])"
        using r 3 by simp
      show "int (length (replicate n REQUERY @ [a])) \<le> max 0 max_calls"
        using n by simp
      show "run_final_output run = fin" if "replicate n REQUERY @ [a] = []"
        using that by simp
      show "replicate n REQUERY @ [a] = replicate (nat max_calls) REQUERY \<and> 0 < max_calls \<and>
            run_final_output run = last (run_raw_outputs run)"
        if "last (replicate n REQUERY @ [a]) = REQUERY"
        using that 3 by simp
    qed
  next
    case (4 n new wrapper')
    then have r: "run = \<lparr>run_final_output = last new, run_raw_outputs = new,
               run_decisions_sequence = replicate n ''REQUERY'',
               run_wrapper = wrapper'\<rparr>" by simp
    have w: "world' = advance world n (replicate n (Inr REQUERY))" using 4 by simp
    have n: "n = nat max_calls" "0 < max_calls" using 4 by simp_all
    show ?case
    proof (rule that[of "replicate n REQUERY"])
      show "world' = advance world (length (replicate n REQUERY)) (map Inr (replicate n REQUERY))"
        using w by simp
      show "run_decisions_sequence run = map Action_value (replicate n REQUERY)"
        using r by simp
      show "length (run_raw_outputs run) = length (replicate n REQUERY)"
        using r 4 by simp
      show "int (length (replicate n REQUERY)) \<le> max 0 max_calls"
        using n by simp
      show "run_final_output run = fin" if "replicate n REQUERY = []"
        using that n by simp
      show "replicate n REQUERY = replicate (nat max_calls) REQUERY \<and> 0 < max_calls \<and>
            run_final_output run = last (run_raw_outputs run)"
        using n r by simp
    qed
  qed
qed

lemma query_loop_error:
  assumes "query_loop prompt max_calls wrapper [] [] fin 0 world = (Inl e, world')"
  obtains n msg where "int n < max_calls" "e = HTTPException 502 msg"
    "world' = advance world (Suc n) (replicate n (Inr REQUERY))"
proof -
  note o = query_loop_outcome[OF assms]
  show thesis using o
  proof (elim disjE exE conjE, goal_cases)
    case 1
    then show ?case by simp
  next
    case (2 n msg)
    then show ?case by (intro that[of n msg]) simp_all
  next
    case (3 n a otx new wrapper')
    then show ?case by simp
  next
    case (4 n new wrapper')
    then show ?case by simp
  qed
qed


lemma precheck_keyword_scan:
  "resolve_wrapper_name cfg req = ''keyword'' \<Longrightarrow>
   keyword_scan (map lower (case cfg_banned_keywords (cfg_keyword cfg) of None \<Rightarrow> [] | Some ks \<Rightarrow> ks))
       (lower (strip (req_prompt req))) out
     = (if precheck_blocks cfg req then (BLOCK, BLOCK_MESSAGE) else (ALLOW, out))"
  by (simp add: keyword_scan_eq precheck_blocks_def list_ex_iff)

lemma query_unknown:
  assumes "strip (req_prompt req) \<noteq> []"
    and "get_wrapper (resolve_wrapper_name cfg req)
           (get_wrapper_config cfg (resolve_wrapper_name cfg req)) = Inl e"
  shows "query cfg req world = (Inl e, world)"
  using assms by (simp add: query_def Let_def)

lemma query_blocked:
  assumes "strip (req_prompt req) \<noteq> []" and "precheck_blocks cfg req"
  shows "query cfg req world =
     (Inr \<lparr>final_output = BLOCK_MESSAGE,
           wrapper_decision = ''BLOCK'',
           decision_summary = ''Blocked: your prompt contained a banned or harmful keyword. No model call made.'',
           model_call_count = 0,
           raw_outputs = [],
           decisions_sequence = [''BLOCK'']\<rparr>,
      log_trace
        \<lparr>tr_timestamp = now world,
         tr_model_name = (case cfg_model_name cfg of
                            None \<Rightarrow> ''google/gemini-2.5-flash-lite'' | Some n \<Rightarrow> n),
         tr_wrapper_name = ''keyword'',
         tr_wrapper_config = cfg_keyword cfg,
         tr_user_prompt = strip (req_prompt req),
         tr_raw_model_outputs = [],
         tr_wrapper_decisions = [''BLOCK''],
         tr_final_output = BLOCK_MESSAGE,
         tr_total_model_calls = 0,
         tr_wrapper_state = KeywordState (map lower (case cfg_banned_keywords (cfg_keyword cfg) of
                                                       None \<Rightarrow> [] | Some ks \<Rightarrow> ks))\<rparr>
        (advance world 0 [Inr BLOCK]))"
proof -
  have wn: "resolve_wrapper_name cfg req = ''keyword''"
    using assms(2) by (simp add: precheck_blocks_def)
  show ?thesis
    using assms wn precheck_keyword_scan[OF wn, of "[]"]
    by (simp add: query_def Let_def get_wrapper_def get_wrapper_config_def KeywordWrapper_init_def
          call_step_def advance_def)
qed

lemma query_not_blocked:
  assumes "strip (req_prompt req) \<noteq> []" and "\<not> precheck_blocks cfg req"
    and "get_wrapper (resolve_wrapper_name cfg req)
           (get_wrapper_config cfg (resolve_wrapper_name cfg req)) = Inr w0"
  shows "query cfg req world =
     query_run (strip (req_prompt req))
       (case cfg_model_name cfg of None \<Rightarrow> ''google/gemini-2.5-flash-lite'' | Some n \<Rightarrow> n)
       (resolve_wrapper_name cfg req)
       (get_wrapper_config cfg (resolve_wrapper_name cfg req))
       (request_budget cfg req) (reset w0)
       (if resolve_wrapper_name cfg req = ''keyword'' then advance world 0 [Inr ALLOW] else world)"
proof (cases "resolve_wrapper_name cfg req = ''keyword''")
  case True
  have w0: "w0 = KeywordWrapper (map lower (case cfg_banned_keywords (cfg_keyword cfg) of
                                               None \<Rightarrow> [] | Some ks \<Rightarrow> ks))"
    using assms(3) True by (simp add: get_wrapper_def get_wrapper_config_def KeywordWrapper_init_def)
  show ?thesis
    using assms True precheck_keyword_scan[OF True, of "[]"]
    by (simp add: query_def Let_def w0 call_step_def advance_def request_budget_def)
next
  case False
  then show ?thesis
    using assms by (simp add: query_def Let_def request_budget_def)
qed


lemma query_run_error:
  assumes "query_run prompt model_name wrapper_name wrapper_config max_calls wrapper world
             = (Inl e, world')"
  obtains n msg where "int n < max_calls" "e = HTTPException 502 msg"
    "world' = advance world (Suc n) (replicate n (Inr REQUERY))"
proof -
  obtain lres lworld where l: "query_loop prompt max_calls wrapper [] [] [] 0 world = (lres, lworld)"
    by (cases "query_loop prompt max_calls wrapper [] [] [] 0 world") auto
  show thesis
  proof (cases lres)
    case (Inl e')
    with assms l have "e' = e" "lworld = world'" by (simp_all add: query_run_def)
    with l Inl have "query_loop prompt max_calls wrapper [] [] [] 0 world = (Inl e, world')" by simp
    from query_loop_error[OF this] that show thesis by blast
  next
    case (Inr run)
    with assms l show thesis by (simp add: query_run_def Let_def)
  qed
qed

lemma query_run_response:
  assumes "query_run prompt model_name wrapper_name wrapper_config max_calls wrapper world
             = (Inr resp, world')"
  obtains acts rec where
    "world' = log_trace rec (advance world (length acts) (map Inr acts))"
    "decisions_sequence resp = map Action_value acts"
    "length (raw_outputs resp) = length acts"
    "model_call_count resp = length acts"
    "int (length acts) \<le> max 0 max_calls"
    "wrapper_decision resp = (if acts = [] then ''ALLOW'' else Action_value (last acts))"
    "tr_total_model_calls rec = length acts"
    "tr_raw_model_outputs rec = raw_outputs resp"
    "tr_wrapper_decisions rec = decisions_sequence resp"
    "tr_final_output rec = final_output resp"
    "acts = [] \<Longrightarrow> final_output resp = []"
    "acts \<noteq> [] \<Longrightarrow> last acts = REQUERY \<Longrightarrow>
       acts = replicate (nat max_calls) REQUERY \<and> 0 < max_calls \<and>
       final_output resp = last (raw_outputs resp)"
proof -
  obtain lres lworld where l: "query_loop prompt max_calls wrapper [] [] [] 0 world = (lres, lworld)"
    by (cases "query_loop prompt max_calls wrapper [] [] [] 0 world") auto
  show thesis
  proof (cases lres)
    case (Inl e')
    with assms l show thesis by (simp add: query_run_def)
  next
    case (Inr run)
    let ?decs = "run_decisions_sequence run"
    let ?rec = "\<lparr>tr_timestamp = now lworld,
                  tr_model_name = model_name,
                  tr_wrapper_name = wrapper_name,
                  tr_wrapper_config = wrapper_config,
                  tr_user_prompt = prompt,
                  tr_raw_model_outputs = run_raw_outputs run,
                  tr_wrapper_decisions = ?decs,
                  tr_final_output = run_final_output run,
                  tr_total_model_calls = length (run_raw_outputs run),
                  tr_wrapper_state = get_state (run_wrapper run)\<rparr>"
    have w: "world' = log_trace ?rec lworld"
      using assms l Inr by (simp add: query_run_def Let_def)
    have r: "final_output resp = run_final_output run"
            "raw_outputs resp = run_raw_outputs run"
            "decisions_sequence resp = ?decs"
            "model_call_count resp = length (run_raw_outputs run)"
            "wrapper_decision resp = (if ?decs \<noteq> [] then last ?decs else ''ALLOW'')"
      using assms l Inr by (auto simp add: query_run_def Let_def)
    from l Inr have "query_loop prompt max_calls wrapper [] [] [] 0 world = (Inr run, lworld)" by simp
    from query_loop_run[OF this] obtain acts where a:
      "lworld = advance world (length acts) (map Inr acts)"
      "?decs = map Action_value acts"
      "length (run_raw_outputs run) = length acts"
      "int (length acts) \<le> max 0 max_calls"
      "acts = [] \<Longrightarrow> run_final_output run = []"
      "acts \<noteq> [] \<Longrightarrow> last acts = REQUERY \<Longrightarrow>
         acts = replicate (nat max_calls) REQUERY \<and> 0 < max_calls \<and>
         run_final_output run = last (run_raw_outputs run)"
      by blast
    show thesis
    proof (rule that[of ?rec acts])
      show "world' = log_trace ?rec (advance world (length acts) (map Inr acts))"
        using w a(1) by simp
      show "decisions_sequence resp = map Action_value acts" using r a by simp
      show "length (raw_outputs resp) = length acts" using r a by simp
      show "model_call_count resp = length acts" using r a by simp
      show "int (length acts) \<le> max 0 max_calls" using a by simp
      show "wrapper_decision resp = (if acts = [] then ''ALLOW'' else Action_value (last acts))"
        using r(5) a(2) by (simp add: last_map)
      show "tr_total_model_calls ?rec = length acts" using a by simp
      show "tr_raw_model_outputs ?rec = raw_outputs resp" using r by simp
      show "tr_wrapper_decisions ?rec = decisions_sequence resp" using r by simp
      show "tr_final_output ?rec = final_output resp" using r by simp
      show "final_output resp = []" if "acts = []" using that a(5) r by simp
      show "acts = replicate (nat max_calls) REQUERY \<and> 0 < max_calls \<and>
            final_output resp = last (raw_outputs resp)"
        if "acts \<noteq> []" "last acts = REQUERY"
        using that a(6) r by simp
    qed
  qed
qed


lemma get_wrapper_cases:
  obtains (unknown) e where "get_wrapper name config = Inl e"
  | (known) w0 where "get_wrapper name config = Inr w0"
  by (cases "get_wrapper name config") auto

text \<open>The four ways a request can end.\<close>

lemma query_paths:
  assumes "query cfg req world = (res, world')"
  obtains
    (skip) "strip (req_prompt req) = []" "res = Inr skip_response" "world' = world"
  | (unknown) e where "strip (req_prompt req) \<noteq> []" "res = Inl e" "world' = world"
  | (blocked) rec resp where "strip (req_prompt req) \<noteq> []" "precheck_blocks cfg req"
      "res = Inr resp" "final_output resp = BLOCK_MESSAGE" "wrapper_decision resp = ''BLOCK''"
      "model_call_count resp = 0" "raw_outputs resp = []" "decisions_sequence resp = [''BLOCK'']"
      "world' = log_trace rec (advance world 0 [Inr BLOCK])"
      "tr_total_model_calls rec = 0" "tr_raw_model_outputs rec = []"
      "tr_wrapper_decisions rec = [''BLOCK'']" "tr_final_output rec = BLOCK_MESSAGE"
  | (failed) n e pre where "strip (req_prompt req) \<noteq> []" "\<not> precheck_blocks cfg req"
      "res = Inl (HTTPException 502 e)" "int n < request_budget cfg req"
      "pre = (if resolve_wrapper_name cfg req = ''keyword'' then [Inr ALLOW] else [])"
      "world' = advance world (Suc n) (pre @ replicate n (Inr REQUERY))"
  | (completed) acts rec resp pre where "strip (req_prompt req) \<noteq> []" "\<not> precheck_blocks cfg req"
      "res = Inr resp"
      "pre = (if resolve_wrapper_name cfg req = ''keyword'' then [Inr ALLOW] else [])"
      "world' = log_trace rec (advance world (length acts) (pre @ map Inr acts))"
      "decisions_sequence resp = map Action_value acts"
      "length (raw_outputs resp) = length acts"
      "model_call_count resp = length acts"
      "int (length acts) \<le> max 0 (request_budget cfg req)"
      "wrapper_decision resp = (if acts = [] then ''ALLOW'' else Action_value (last acts))"
      "tr_total_model_calls rec = length acts"
      "tr_raw_model_outputs rec = raw_outputs resp"
      "tr_wrapper_decisions rec = decisions_sequence resp"
      "tr_final_output rec = final_output resp"
      "acts = [] \<Longrightarrow> final_output resp = []"
      "acts \<noteq> [] \<Longrightarrow> last acts = REQUERY \<Longrightarrow>
         acts = replicate (nat (request_budget cfg req)) REQUERY \<and> 0 < request_budget cfg req \<and>
         final_output resp = last (raw_outputs resp)"
proof (cases "strip (req_prompt req) = []")
  case True
  then have "query cfg req world = (Inr skip_response, world)"
    by (simp add: query_def Let_def)
  with assms True skip show thesis by simp
next
  case ne: False
  let ?wn = "resolve_wrapper_name cfg req"
  let ?wc = "get_wrapper_config cfg ?wn"
  show thesis
  proof (cases "precheck_blocks cfg req")
    case True
    note q = query_blocked[OF ne True, of world]
    from q assms have r: "res = Inr \<lparr>final_output = BLOCK_MESSAGE,
           wrapper_decision = ''BLOCK'',
           decision_summary = ''Blocked: your prompt contained a banned or harmful keyword. No model call made.'',
           model_call_count = 0,
           raw_outputs = [],
           decisions_sequence = [''BLOCK'']\<rparr>" by simp
    from q assms have w: "world' = log_trace
        \<lparr>tr_timestamp = now world,
         tr_model_name = (case cfg_model_name cfg of
                            None \<Rightarrow> ''google/gemini-2.5-flash-lite'' | Some n \<Rightarrow> n),
         tr_wrapper_name = ''keyword'',
         tr_wrapper_config = cfg_keyword cfg,
         tr_user_prompt = strip (req_prompt req),
         tr_raw_model_outputs = [],
         tr_wrapper_decisions = [''BLOCK''],
         tr_final_output = BLOCK_MESSAGE,
         tr_total_model_calls = 0,
         tr_wrapper_state = KeywordState (map lower (case cfg_banned_keywords (cfg_keyword cfg) of
                                                       None \<Rightarrow> [] | Some ks \<Rightarrow> ks))\<rparr>
        (advance world 0 [Inr BLOCK])" by simp
    show thesis
      by (rule blocked[OF ne True r _ _ _ _ _ w]) simp_all
  next
    case nb: False
    show thesis
    proof (cases rule: get_wrapper_cases[of ?wn ?wc])
      case (unknown e)
      from query_unknown[OF ne unknown, of world] assms
      have "res = Inl e" "world' = world" by simp_all
      with ne show thesis by (rule that(2))
    next
      case (known w0)
      let ?pre = "if ?wn = ''keyword'' then [Inr ALLOW] else []"
      let ?w1 = "if ?wn = ''keyword'' then advance world 0 [Inr ALLOW] else world"
      have w1: "?w1 = advance world 0 ?pre" by (simp add: advance_0)
      note q = query_not_blocked[OF ne nb known, of world]
      show thesis
      proof (cases res)
        case (Inl e)
        from q assms Inl have "query_run (strip (req_prompt req))
           (case cfg_model_name cfg of None \<Rightarrow> ''google/gemini-2.5-flash-lite'' | Some n \<Rightarrow> n)
           ?wn ?wc (request_budget cfg req) (reset w0) ?w1 = (Inl e, world')" by simp
        from query_run_error[OF this] obtain n msg where
          n: "int n < request_budget cfg req"
             "world' = advance ?w1 (Suc n) (replicate n (Inr REQUERY))"
          and msg: "e = HTTPException 502 msg" by blast
        have e: "res = Inl (HTTPException 502 msg)" using Inl msg by simp
        have "world' = advance world (Suc n) (?pre @ replicate n (Inr REQUERY))"
          using n(2) by (simp only: w1 advance_advance) simp
        with ne nb e n(1) show thesis by (rule failed[OF _ _ _ _ refl])
      next
        case (Inr resp)
        from q assms Inr have "query_run (strip (req_prompt req))
           (case cfg_model_name cfg of None \<Rightarrow> ''google/gemini-2.5-flash-lite'' | Some n \<Rightarrow> n)
           ?wn ?wc (request_budget cfg req) (reset w0) ?w1 = (Inr resp, world')" by simp
        from query_run_response[OF this] obtain acts rec where a:
          "world' = log_trace rec (advance ?w1 (length acts) (map Inr acts))"
          "decisions_sequence resp = map Action_value acts"
          "length (raw_outputs resp) = length acts"
          "model_call_count resp = length acts"
          "int (length acts) \<le> max 0 (request_budget cfg req)"
          "wrapper_decision resp = (if acts = [] then ''ALLOW'' else Action_value (last acts))"
          "tr_total_model_calls rec = length acts"
          "tr_raw_model_outputs rec = raw_outputs resp"
          "tr_wrapper_decisions rec = decisions_sequence resp"
          "tr_final_output rec = final_output resp"
          "acts = [] \<Longrightarrow> final_output resp = []"
          "acts \<noteq> [] \<Longrightarrow> last acts = REQUERY \<Longrightarrow>
             acts = replicate (nat (request_budget cfg req)) REQUERY \<and> 0 < request_budget cfg req \<and>
             final_output resp = last (raw_outputs resp)"
          by blast
        have w: "world' = log_trace rec (advance world (length acts) (?pre @ map Inr acts))"
          using a(1) by (simp only: w1 advance_advance) simp
        show thesis
          by (rule completed[OF ne nb Inr refl w a(2-12)])
      qed
    qed
  qed
qed


section \<open>Concrete text evaluations\<close>

lemma strip_blank: "strip ''   '' = []"
  by (simp add: strip_def lstrip_def rstrip_def isspace_def)

lemma strip_ok: "strip '' ok '' = ''ok''"
  by (simp add: strip_def lstrip_def rstrip_def isspace_def)


section \<open>The History wrapper\<close>

text \<open>
  Claim C2.  For every state \<open>(k, buf)\<close> of the History wrapper and every input, \<open>step\<close>
  strips the model output.  If the stripped output is empty the answer is REQUERY and the
  state is unchanged; if the stripped output is in the buffer the answer is REQUERY and the
  state is unchanged; otherwise the stripped output is appended to the buffer, the oldest
  entry (the head) is removed if the buffer is now longer than \<open>k\<close>, and the answer is ALLOW
  with the original, unstripped output.  In no case does \<open>step\<close> raise.
\<close>

theorem history_step_rule:
  "step (HistoryWrapper k buf) user_prompt model_output call_index =
     (if strip model_output = [] then Inr ((REQUERY, []), HistoryWrapper k buf)
      else if strip model_output \<in> set buf then Inr ((REQUERY, []), HistoryWrapper k buf)
      else Inr ((ALLOW, model_output),
                HistoryWrapper k (if int (length (buf @ [strip model_output])) > k
                                  then tl (buf @ [strip model_output])
                                  else buf @ [strip model_output])))"
  by (simp add: Let_def pop0_snoc)

text \<open>A run of the rule: capacity 1, buffer \<open>[old]\<close>, output \<open>" ok "\<close>; the stripped text
  replaces the old entry and the unstripped text is returned.\<close>

theorem history_step_rule_witness:
  "step (HistoryWrapper 1 [''old'']) ''p'' '' ok '' 0
     = Inr ((ALLOW, '' ok ''), HistoryWrapper 1 [''ok''])"
  using history_step_rule[of 1 "[''old'']" "''p''" "'' ok ''" 0]
  by (simp add: strip_ok del: step.simps)

text \<open>
  Claim C8, as stated, fails for a negative configured \<open>k\<close>: the constructor stores \<open>-1\<close>
  unchanged, and the buffer, empty after the first allowed output has been appended and
  popped again, has length 0, which exceeds \<open>-1\<close>.
\<close>

theorem history_buffer_negative_capacity_counterexample:
  "run_steps (reset (HistoryWrapper_init
                       \<lparr>cfg_banned_keywords = None, cfg_k = Some (- 1), cfg_max_queries = None\<rparr>))
       [(''p'', ''a'', 0)]
     = Inr ([(ALLOW, ''a'')], HistoryWrapper (- 1) []) \<and>
   \<not> int (length ([] :: string list)) \<le> - 1"
  by (simp add: HistoryWrapper_init_def strip_def lstrip_def rstrip_def isspace_def)

text \<open>
  Claim C8, amended.  For every History wrapper constructed from a configuration (capacity
  \<open>k\<close> as configured, 3 when the key is missing) and every sequence of \<open>step\<close> calls after
  \<open>reset\<close>, no call raises, and the buffer afterwards has at most \<open>max 0 k\<close> entries (at most
  \<open>k\<close> when \<open>k\<close> is not negative).  Eviction is first in, first out: the buffer is exactly
  the last \<open>k\<close> stripped outputs that were answered ALLOW, in the order they came.
\<close>

theorem history_buffer_bounded_fifo:
  "\<exists>results buf.
     run_steps (reset (HistoryWrapper_init config)) inputs
       = Inr (results, HistoryWrapper (case cfg_k config of None \<Rightarrow> 3 | Some k \<Rightarrow> k) buf) \<and>
     int (length buf) \<le> max 0 (case cfg_k config of None \<Rightarrow> 3 | Some k \<Rightarrow> k) \<and>
     buf = drop (length (allowed_outputs inputs results)
                   - nat (case cfg_k config of None \<Rightarrow> 3 | Some k \<Rightarrow> k))
             (allowed_outputs inputs results)"
  using history_run_steps[of "[]" "case cfg_k config of None \<Rightarrow> 3 | Some k \<Rightarrow> k" inputs]
  by (simp add: HistoryWrapper_init_def)


section \<open>Construction of the wrappers\<close>

text \<open>
  Claim C5, as stated, fails: the constructors do not clamp.  A History wrapper configured
  with \<open>k = -1\<close> reports \<open>k = -1\<close> in its state, and a QueryBudget wrapper configured with
  \<open>max_queries = 0\<close> reports \<open>max_queries = 0\<close>.
\<close>

theorem constructors_do_not_clamp_counterexample:
  "get_state (HistoryWrapper_init
                \<lparr>cfg_banned_keywords = None, cfg_k = Some (- 1), cfg_max_queries = None\<rparr>)
     = HistoryState (- 1) [] \<and>
   get_state (QueryBudgetWrapper_init
                \<lparr>cfg_banned_keywords = None, cfg_k = None, cfg_max_queries = Some 0\<rparr>)
     = QueryBudgetState 0 0"
  by (simp add: HistoryWrapper_init_def QueryBudgetWrapper_init_def)

text \<open>
  Claim C5, amended.  The constructors store the configured numbers as they are:
  HistoryWrapper keeps \<open>k\<close> (3 when the key is missing), also when it is negative, and
  QueryBudgetWrapper keeps \<open>max_queries\<close> (2 when the key is missing), also when it is not
  positive.  KeywordWrapper treats a missing banned-keyword list as the empty list.  For
  every wrapper state, reset or not, and every input, \<open>step\<close> returns and does not raise.
\<close>

theorem config_stored_as_given:
  "HistoryWrapper_init (config\<lparr>cfg_k := Some k\<rparr>) = HistoryWrapper k [] \<and>
   HistoryWrapper_init (config\<lparr>cfg_k := None\<rparr>) = HistoryWrapper 3 [] \<and>
   QueryBudgetWrapper_init (config\<lparr>cfg_max_queries := Some m\<rparr>) = QueryBudgetWrapper m 0 \<and>
   QueryBudgetWrapper_init (config\<lparr>cfg_max_queries := None\<rparr>) = QueryBudgetWrapper 2 0 \<and>
   KeywordWrapper_init (config\<lparr>cfg_banned_keywords := None\<rparr>) = KeywordWrapper [] \<and>
   (\<exists>r. step (reset w) user_prompt model_output call_index = Inr r) \<and>
   (\<exists>r. step w user_prompt model_output call_index = Inr r)"
  using step_never_raises[of w user_prompt model_output call_index]
        step_never_raises[of "reset w" user_prompt model_output call_index]
  by (simp add: HistoryWrapper_init_def QueryBudgetWrapper_init_def KeywordWrapper_init_def
           del: step.simps)


section \<open>The empty prompt\<close>

text \<open>
  Claim C9.  For every request whose prompt is empty after stripping whitespace, \<open>query\<close>
  returns the response with final output \<open>[Empty prompt]\<close>, decision SKIP, zero model calls
  and empty output and decision lists, whatever the wrapper name and configuration are.
  The world is returned as it was: the model client was not called, no wrapper \<open>step\<close> was
  called, nothing was written to the trace file.
\<close>

theorem empty_prompt_skips:
  assumes "strip (req_prompt req) = []"
  shows "query cfg req world =
           (Inr \<lparr>final_output = ''[Empty prompt]'',
                 wrapper_decision = ''SKIP'',
                 decision_summary = ''No prompt entered; no model call. No safety decision applied.'',
                 model_call_count = 0,
                 raw_outputs = [],
                 decisions_sequence = []\<rparr>, world)"
  using assms by (simp add: query_def Let_def skip_response_def)

text \<open>The input \<open>"   "\<close> of the specification's scenario.\<close>

theorem empty_prompt_skips_witness:
  "strip (req_prompt (request ''   '' ''history'')) = [] \<and>
   query example_config (request ''   '' ''history'') (scripted_world [Inr ''never asked'']) =
     (Inr \<lparr>final_output = ''[Empty prompt]'',
           wrapper_decision = ''SKIP'',
           decision_summary = ''No prompt entered; no model call. No safety decision applied.'',
           model_call_count = 0,
           raw_outputs = [],
           decisions_sequence = []\<rparr>, scripted_world [Inr ''never asked''])"
proof -
  have h: "strip (req_prompt (request ''   '' ''history'')) = []"
    by (simp add: request_def strip_blank)
  show ?thesis
    using h empty_prompt_skips[OF h, of example_config "scripted_world [Inr ''never asked'']"]
    by simp
qed


section \<open>The keyword pre-check\<close>

text \<open>
  Claim C1, amended.  For every configured banned keyword \<open>kw\<close> and every request under the
  Keyword wrapper whose prompt, stripped of surrounding whitespace, is not empty and
  contains \<open>kw\<close> as a substring after both are lower-cased, \<open>query\<close> returns decision BLOCK,
  the fixed message \<open>[Blocked by keyword wrapper]\<close> as final output, no raw outputs and the
  decision sequence \<open>[BLOCK]\<close>.  The world afterwards differs from the world before only by
  the one \<open>step\<close> call of the pre-check and the one trace record: the model client was not
  called.
\<close>

theorem keyword_blocks_before_model:
  assumes "resolve_wrapper_name cfg req = ''keyword''"
    and "cfg_banned_keywords (cfg_keyword cfg) = Some kws"
    and "kw \<in> set kws"
    and "strip (req_prompt req) \<noteq> []"
    and "str_in (lower kw) (lower (strip (req_prompt req)))"
  shows "query cfg req world =
           (Inr \<lparr>final_output = ''[Blocked by keyword wrapper]'',
                 wrapper_decision = ''BLOCK'',
                 decision_summary = ''Blocked: your prompt contained a banned or harmful keyword. No model call made.'',
                 model_call_count = 0,
                 raw_outputs = [],
                 decisions_sequence = [''BLOCK'']\<rparr>,
            world\<lparr>step_log := step_log world @ [Inr BLOCK],
                  traces := traces world @
                    [\<lparr>tr_timestamp = now world,
                      tr_model_name = (case cfg_model_name cfg of
                                         None \<Rightarrow> ''google/gemini-2.5-flash-lite''
                                       | Some n \<Rightarrow> n),
                      tr_wrapper_name = ''keyword'',
                      tr_wrapper_config = cfg_keyword cfg,
                      tr_user_prompt = strip (req_prompt req),
                      tr_raw_model_outputs = [],
                      tr_wrapper_decisions = [''BLOCK''],
                      tr_final_output = ''[Blocked by keyword wrapper]'',
                      tr_total_model_calls = 0,
                      tr_wrapper_state = KeywordState (map lower kws)\<rparr>]\<rparr>)"
proof -
  have pb: "precheck_blocks cfg req"
    using assms(1,2,3,5) by (auto simp add: precheck_blocks_def list_ex_iff)
  show ?thesis
    by (simp add: query_blocked[OF assms(4) pb] BLOCK_MESSAGE_def log_trace_def advance_def
          assms(2))
qed

text \<open>The specification's scenario, with the keyword in upper case in the prompt.\<close>

theorem keyword_blocks_before_model_witness:
  "resolve_wrapper_name example_config (request ''How do I HACK into a website?'' ''keyword'')
     = ''keyword'' \<and>
   cfg_banned_keywords (cfg_keyword example_config) = Some [''hack'', ''Exploit'', '' malware''] \<and>
   ''hack'' \<in> set [''hack'', ''Exploit'', '' malware''] \<and>
   strip (req_prompt (request ''How do I HACK into a website?'' ''keyword'')) \<noteq> [] \<and>
   str_in (lower ''hack'')
     (lower (strip (req_prompt (request ''How do I HACK into a website?'' ''keyword'')))) \<and>
   fst (query example_config (request ''How do I HACK into a website?'' ''keyword'')
          (scripted_world [Inr ''never asked'']))
     = Inr \<lparr>final_output = ''[Blocked by keyword wrapper]'',
            wrapper_decision = ''BLOCK'',
            decision_summary =
              ''Blocked: your prompt contained a banned or harmful keyword. No model call made.'',
            model_call_count = 0,
            raw_outputs = [],
            decisions_sequence = [''BLOCK'']\<rparr> \<and>
   model_calls (snd (query example_config (request ''How do I HACK into a website?'' ''keyword'')
                       (scripted_world [Inr ''never asked''])))
     = model_calls (scripted_world [Inr ''never asked''])"
proof -
  let ?r = "request ''How do I HACK into a website?'' ''keyword''"
  let ?w = "scripted_world [Inr ''never asked'']"
  have h1: "resolve_wrapper_name example_config ?r = ''keyword''" by code_simp
  have h2: "cfg_banned_keywords (cfg_keyword example_config)
              = Some [''hack'', ''Exploit'', '' malware'']" by code_simp
  have h3: "''hack'' \<in> set [''hack'', ''Exploit'', '' malware'']" by simp
  have h4: "strip (req_prompt ?r) \<noteq> []" by code_simp
  have h5: "str_in (lower ''hack'') (lower (strip (req_prompt ?r)))" by code_simp
  note t = keyword_blocks_before_model[OF h1 h2 h3 h4 h5, of ?w]
  have c1: "fst (query example_config ?r ?w)
     = Inr \<lparr>final_output = ''[Blocked by keyword wrapper]'',
            wrapper_decision = ''BLOCK'',
            decision_summary =
              ''Blocked: your prompt contained a banned or harmful keyword. No model call made.'',
            model_call_count = 0,
            raw_outputs = [],
            decisions_sequence = [''BLOCK'']\<rparr>"
    by (subst t) simp
  have c2: "model_calls (snd (query example_config ?r ?w)) = model_calls ?w"
    by (subst t) simp
  show ?thesis
    by (rule conjI[OF h1], rule conjI[OF h2], rule conjI[OF h3], rule conjI[OF h4],
        rule conjI[OF h5], rule conjI[OF c1], rule c2)
qed

text \<open>
  Claim C1, as stated, fails when the match depends on whitespace at the edge of the
  prompt: \<open>query\<close> strips the prompt before the wrapper sees it.  The prompt
  \<open>" malware analysis basics"\<close> contains the banned keyword \<open>" malware"\<close>, the stripped prompt
  does not; the request is allowed and the model is called once.
\<close>

theorem padded_keyword_not_blocked_counterexample:
  "cfg_banned_keywords (cfg_keyword example_config) = Some [''hack'', ''Exploit'', '' malware''] \<and>
   str_in (lower '' malware'') (lower '' malware analysis basics'') \<and>
   fst (query example_config (request '' malware analysis basics'' ''keyword'')
          (scripted_world [Inr ''ok'']))
     = Inr \<lparr>final_output = ''ok'',
            wrapper_decision = ''ALLOW'',
            decision_summary = ''Allowed: no banned keywords detected in your prompt.'',
            model_call_count = 1,
            raw_outputs = [''ok''],
            decisions_sequence = [''ALLOW'']\<rparr> \<and>
   model_calls (snd (query example_config (request '' malware analysis basics'' ''keyword'')
                       (scripted_world [Inr ''ok'']))) = 1"
  by code_simp


section \<open>The call budget\<close>

text \<open>
  Claim C3.  For every request whose resolved call budget \<open>N\<close> lies in \<open>[1, 10]\<close>, whatever
  the wrapper and whatever the model client answers (failures included), the number of calls
  made to the model client is at most \<open>N\<close>, and every trace record the request writes has a
  \<open>total_model_calls\<close> equal to the number of calls made and to the length of its raw-outputs
  list.  For the QueryBudget wrapper the budget is the caller's \<open>max_queries\<close> when that is
  within \<open>[1, 10]\<close>, and the configured \<open>max_queries\<close> (2 when missing) otherwise.
\<close>

theorem call_budget_respected:
  assumes "query cfg req world = (res, world')"
    and "1 \<le> request_budget cfg req" and "request_budget cfg req \<le> 10"
  shows "model_calls world \<le> model_calls world' \<and>
         int (model_calls world' - model_calls world) \<le> request_budget cfg req \<and>
         list_all (\<lambda>rec. tr_total_model_calls rec = model_calls world' - model_calls world \<and>
                         tr_total_model_calls rec = length (tr_raw_model_outputs rec))
           (drop (length (traces world)) (traces world')) \<and>
         resolve_max_calls cfg req ''query_budget'' (cfg_query_budget cfg) =
           (case req_max_queries req of
              None \<Rightarrow> (case cfg_max_queries (cfg_query_budget cfg) of None \<Rightarrow> 2 | Some m \<Rightarrow> m)
            | Some user_limit \<Rightarrow>
                if 1 \<le> user_limit \<and> user_limit \<le> 10 then user_limit
                else (case cfg_max_queries (cfg_query_budget cfg) of None \<Rightarrow> 2 | Some m \<Rightarrow> m))"
proof -
  have budget: "resolve_max_calls cfg req ''query_budget'' (cfg_query_budget cfg) =
           (case req_max_queries req of
              None \<Rightarrow> (case cfg_max_queries (cfg_query_budget cfg) of None \<Rightarrow> 2 | Some m \<Rightarrow> m)
            | Some user_limit \<Rightarrow>
                if 1 \<le> user_limit \<and> user_limit \<le> 10 then user_limit
                else (case cfg_max_queries (cfg_query_budget cfg) of None \<Rightarrow> 2 | Some m \<Rightarrow> m))"
    by (simp add: resolve_max_calls_def split: option.splits)
  have "model_calls world \<le> model_calls world' \<and>
         int (model_calls world' - model_calls world) \<le> request_budget cfg req \<and>
         list_all (\<lambda>rec. tr_total_model_calls rec = model_calls world' - model_calls world \<and>
                         tr_total_model_calls rec = length (tr_raw_model_outputs rec))
           (drop (length (traces world)) (traces world'))"
    using assms(1)
  proof (cases rule: query_paths)
    case skip
    then show ?thesis using assms(2) by simp
  next
    case (unknown e)
    then show ?thesis using assms(2) by simp
  next
    case (blocked rec resp)
    then show ?thesis using assms(2) by simp
  next
    case (failed n e pre)
    then show ?thesis by simp
  next
    case (completed acts rec resp pre)
    then show ?thesis using assms(2) by simp
  qed
  with budget show ?thesis by blast
qed

text \<open>A request that uses its whole budget: the History wrapper with \<open>k = 3\<close> has budget 5,
  the model answers with the empty text every time, and 5 calls are made and recorded.\<close>

theorem call_budget_respected_witness:
  "1 \<le> request_budget example_config (request ''Hi'' ''history'') \<and>
   request_budget example_config (request ''Hi'' ''history'') \<le> 10 \<and>
   request_budget example_config (request ''Hi'' ''history'') = 5 \<and>
   model_calls (scripted_world []) = 0 \<and>
   model_calls (snd (query example_config (request ''Hi'' ''history'') (scripted_world []))) = 5 \<and>
   map tr_total_model_calls
     (traces (snd (query example_config (request ''Hi'' ''history'') (scripted_world [])))) = [5] \<and>
   int (model_calls (snd (query example_config (request ''Hi'' ''history'') (scripted_world [])))
         - model_calls (scripted_world []))
     \<le> request_budget example_config (request ''Hi'' ''history'')"
proof -
  let ?q = "query example_config (request ''Hi'' ''history'') (scripted_world [])"
  have q: "?q = (fst ?q, snd ?q)" by simp
  have h1: "1 \<le> request_budget example_config (request ''Hi'' ''history'')" by code_simp
  have h2: "request_budget example_config (request ''Hi'' ''history'') \<le> 10" by code_simp
  have x1: "request_budget example_config (request ''Hi'' ''history'') = 5" by code_simp
  have x2: "model_calls (scripted_world []) = 0" by code_simp
  have x3: "model_calls (snd ?q) = 5" by code_simp
  have x4: "map tr_total_model_calls (traces (snd ?q)) = [5]" by code_simp
  from call_budget_respected[OF q h1 h2]
  have c: "int (model_calls (snd ?q) - model_calls (scripted_world []))
             \<le> request_budget example_config (request ''Hi'' ''history'')" by blast
  show ?thesis
    by (rule conjI[OF h1], rule conjI[OF h2], rule conjI[OF x1], rule conjI[OF x2],
        rule conjI[OF x3], rule conjI[OF x4], rule c)
qed


section \<open>Exhausting the budget\<close>

text \<open>
  Claim C4.  For every request that returns a response and in which the last action a
  wrapper's \<open>step\<close> returned is REQUERY (the loop goes on after any earlier REQUERY, so this
  is REQUERY on the last budgeted call, call index \<open>N - 1\<close>): the final output is the last
  raw model output, the reported decision sequence is \<open>N\<close> times REQUERY and so ends in
  REQUERY with no ALLOW in it, \<open>wrapper_decision\<close> is REQUERY, and exactly \<open>N\<close> model calls
  were made.
\<close>

theorem requery_on_last_call:
  assumes "query cfg req world = (Inr resp, world')"
    and "step_log world' \<noteq> step_log world"
    and "last (step_log world') = Inr REQUERY"
  shows "raw_outputs resp \<noteq> [] \<and>
         final_output resp = last (raw_outputs resp) \<and>
         decisions_sequence resp = replicate (nat (request_budget cfg req)) ''REQUERY'' \<and>
         last (decisions_sequence resp) = ''REQUERY'' \<and>
         wrapper_decision resp = ''REQUERY'' \<and>
         int (model_call_count resp) = request_budget cfg req \<and>
         0 < request_budget cfg req"
  using assms(1)
proof (cases rule: query_paths)
  case skip
  then show ?thesis using assms(2) by simp
next
  case (unknown e)
  then show ?thesis by simp
next
  case (blocked rec resp')
  then show ?thesis using assms(3) by simp
next
  case (failed n e pre)
  then show ?thesis by simp
next
  case (completed acts rec resp' pre)
  have resp: "resp' = resp" using completed(3) by simp
  have log: "step_log world' = step_log world @ pre @ map Inr acts"
    using completed(5) by simp
  have ne: "acts \<noteq> []"
  proof
    assume e: "acts = []"
    with log assms(2) have "pre \<noteq> []" by auto
    with completed(4) have "pre = [Inr ALLOW]" by (auto split: if_splits)
    with log e assms(3) show False by simp
  qed
  then have "last (step_log world') = Inr (last acts)"
    using log by (simp add: last_map)
  with assms(3) have l: "last acts = REQUERY" by simp
  from completed(16)[OF ne l] have shape:
    "acts = replicate (nat (request_budget cfg req)) REQUERY" "0 < request_budget cfg req"
    "final_output resp' = last (raw_outputs resp')" by simp_all
  have len: "length acts = nat (request_budget cfg req)" by (subst shape(1)) simp
  have d: "decisions_sequence resp' = replicate (nat (request_budget cfg req)) ''REQUERY''"
    using completed(6) by (subst (asm) shape(1)) simp
  have "raw_outputs resp' \<noteq> []" using completed(7) ne by auto
  moreover have "last (decisions_sequence resp') = ''REQUERY''"
    using d shape(2) by simp
  moreover have "wrapper_decision resp' = ''REQUERY''"
    using completed(10) ne l by simp
  moreover have "int (model_call_count resp') = request_budget cfg req"
    using completed(8) len shape(2) by simp
  ultimately show ?thesis using shape d resp by simp
qed

text \<open>The History wrapper with budget 5 and a model that answers with empty or blank text
  five times: the final output is the fifth, blank, raw output.\<close>

theorem requery_on_last_call_witness:
  "query example_config (request ''Hi'' ''history'')
       (scripted_world [Inr [], Inr [], Inr [], Inr [], Inr ''  ''])
     = (Inr \<lparr>final_output = ''  '',
              wrapper_decision = ''REQUERY'',
              decision_summary =
                ''History: re-queried due to empty or duplicate output; allowed after 5 call(s).'',
              model_call_count = 5,
              raw_outputs = [[], [], [], [], ''  ''],
              decisions_sequence = [''REQUERY'', ''REQUERY'', ''REQUERY'', ''REQUERY'', ''REQUERY'']\<rparr>,
        snd (query example_config (request ''Hi'' ''history'')
               (scripted_world [Inr [], Inr [], Inr [], Inr [], Inr ''  '']))) \<and>
   step_log (snd (query example_config (request ''Hi'' ''history'')
                    (scripted_world [Inr [], Inr [], Inr [], Inr [], Inr ''  ''])))
     \<noteq> step_log (scripted_world [Inr [], Inr [], Inr [], Inr [], Inr ''  '']) \<and>
   last (step_log (snd (query example_config (request ''Hi'' ''history'')
                          (scripted_world [Inr [], Inr [], Inr [], Inr [], Inr ''  '']))))
     = Inr REQUERY \<and>
   request_budget example_config (request ''Hi'' ''history'') = 5 \<and>
   int (model_call_count
          \<lparr>final_output = ''  '',
            wrapper_decision = ''REQUERY'',
            decision_summary =
              ''History: re-queried due to empty or duplicate output; allowed after 5 call(s).'',
            model_call_count = 5,
            raw_outputs = [[], [], [], [], ''  ''],
            decisions_sequence = [''REQUERY'', ''REQUERY'', ''REQUERY'', ''REQUERY'', ''REQUERY'']\<rparr>)
     = request_budget example_config (request ''Hi'' ''history'')"
proof -
  let ?w = "scripted_world [Inr [], Inr [], Inr [], Inr [], Inr ''  '']"
  let ?q = "query example_config (request ''Hi'' ''history'') ?w"
  let ?r = "\<lparr>final_output = ''  '',
              wrapper_decision = ''REQUERY'',
              decision_summary =
                ''History: re-queried due to empty or duplicate output; allowed after 5 call(s).'',
              model_call_count = 5,
              raw_outputs = [[], [], [], [], ''  ''],
              decisions_sequence = [''REQUERY'', ''REQUERY'', ''REQUERY'', ''REQUERY'', ''REQUERY'']\<rparr>"
  have f: "fst ?q = Inr ?r" by code_simp
  have h1: "?q = (Inr ?r, snd ?q)" by (rule prod_eqI) (simp_all add: f)
  have h2: "step_log (snd ?q) \<noteq> step_log ?w" by code_simp
  have h3: "last (step_log (snd ?q)) = Inr REQUERY" by code_simp
  have x: "request_budget example_config (request ''Hi'' ''history'') = 5" by code_simp
  from requery_on_last_call[OF h1 h2 h3]
  have c: "int (model_call_count ?r) = request_budget example_config (request ''Hi'' ''history'')"
    by blast
  show ?thesis
    by (rule conjI[OF h1], rule conjI[OF h2], rule conjI[OF h3], rule conjI[OF x], rule c)
qed


section \<open>Trace records\<close>

text \<open>
  Claim C6, as stated, fails on the empty-prompt path: the request \<open>"   "\<close> is answered with
  the SKIP response and the trace file, empty before, is empty afterwards.
\<close>

theorem skipped_request_leaves_no_trace_counterexample:
  "fst (query example_config (request ''   '' ''noop'') (scripted_world []))
     = Inr \<lparr>final_output = ''[Empty prompt]'',
            wrapper_decision = ''SKIP'',
            decision_summary = ''No prompt entered; no model call. No safety decision applied.'',
            model_call_count = 0,
            raw_outputs = [],
            decisions_sequence = []\<rparr> \<and>
   traces (scripted_world []) = [] \<and>
   traces (snd (query example_config (request ''   '' ''noop'') (scripted_world []))) = []"
  by code_simp

text \<open>
  Claim C6, amended.  A request appends exactly one trace record when it returns a response
  for a prompt that is not empty after stripping (the keyword pre-check BLOCK and the end of
  the loop), and none otherwise (the empty-prompt SKIP response, an unknown wrapper, a
  failed model call).  The records already in the trace file are kept as they are, and the
  record appended carries the response's final output, raw outputs, decisions and call
  count.
\<close>

theorem one_trace_per_served_request:
  assumes "query cfg req world = (res, world')"
  shows "take (length (traces world)) (traces world') = traces world \<and>
         length (traces world') =
           length (traces world) +
             (case res of
                Inl e \<Rightarrow> 0
              | Inr resp \<Rightarrow> if strip (req_prompt req) = [] then 0 else 1) \<and>
         (case res of
            Inl e \<Rightarrow> True
          | Inr resp \<Rightarrow>
              list_all (\<lambda>rec. tr_final_output rec = final_output resp \<and>
                              tr_raw_model_outputs rec = raw_outputs resp \<and>
                              tr_wrapper_decisions rec = decisions_sequence resp \<and>
                              tr_total_model_calls rec = model_call_count resp)
                (drop (length (traces world)) (traces world')))"
  using assms
proof (cases rule: query_paths)
  case skip
  then show ?thesis by simp
next
  case (unknown e)
  then show ?thesis by simp
next
  case (blocked rec resp)
  then show ?thesis by simp
next
  case (failed n e pre)
  then show ?thesis by simp
next
  case (completed acts rec resp pre)
  then show ?thesis by simp
qed

text \<open>A request served in three model calls writes one record to an empty trace file.\<close>

theorem one_trace_per_served_request_witness:
  "length (traces (scripted_world [Inr [], Inr ''  '', Inr ''ok''])) = 0 \<and>
   length (traces (snd (query example_config (request ''Hi'' ''history'')
                          (scripted_world [Inr [], Inr ''  '', Inr ''ok''])))) = 1 \<and>
   take (length (traces (scripted_world [Inr [], Inr ''  '', Inr ''ok''])))
        (traces (snd (query example_config (request ''Hi'' ''history'')
                        (scripted_world [Inr [], Inr ''  '', Inr ''ok'']))))
     = traces (scripted_world [Inr [], Inr ''  '', Inr ''ok''])"
proof -
  let ?w = "scripted_world [Inr [], Inr ''  '', Inr ''ok'']"
  let ?q = "query example_config (request ''Hi'' ''history'') ?w"
  have q: "?q = (fst ?q, snd ?q)" by simp
  have x1: "length (traces ?w) = 0" by code_simp
  have x2: "length (traces (snd ?q)) = 1" by code_simp
  from one_trace_per_served_request[OF q]
  have c: "take (length (traces ?w)) (traces (snd ?q)) = traces ?w" by blast
  show ?thesis
    by (rule conjI[OF x1], rule conjI[OF x2], rule c)
qed


section \<open>Actions and model calls\<close>

text \<open>
  Claim C7, as stated, fails on the keyword pre-check path: the decision sequence has one
  action, BLOCK, and the model call count is 0.
\<close>

theorem keyword_block_has_action_without_call_counterexample:
  "fst (query example_config (request ''How do I hack into a website?'' ''keyword'')
          (scripted_world []))
     = Inr \<lparr>final_output = ''[Blocked by keyword wrapper]'',
            wrapper_decision = ''BLOCK'',
            decision_summary =
              ''Blocked: your prompt contained a banned or harmful keyword. No model call made.'',
            model_call_count = 0,
            raw_outputs = [],
            decisions_sequence = [''BLOCK'']\<rparr> \<and>
   length [''BLOCK''] \<noteq> (0::nat)"
  by code_simp

text \<open>
  Claim C7, amended.  In every response, \<open>model_call_count\<close> is the length of \<open>raw_outputs\<close>
  and the number of calls made to the model client.  When the keyword pre-check blocks, the
  decision sequence is \<open>[BLOCK]\<close> and no model call was made; on every other path,
  the SKIP response included, the decision sequence has exactly one action per model call.
\<close>

theorem one_action_per_model_call:
  assumes "query cfg req world = (Inr resp, world')"
  shows "model_call_count resp = length (raw_outputs resp) \<and>
         model_calls world' = model_calls world + model_call_count resp \<and>
         (if strip (req_prompt req) \<noteq> [] \<and> precheck_blocks cfg req
          then decisions_sequence resp = [''BLOCK''] \<and> model_call_count resp = 0
          else length (decisions_sequence resp) = model_call_count resp)"
  using assms
proof (cases rule: query_paths)
  case skip
  then show ?thesis by (auto simp: skip_response_def)
next
  case (unknown e)
  then show ?thesis by simp
next
  case (blocked rec resp')
  then show ?thesis by auto
next
  case (failed n e pre)
  then show ?thesis by simp
next
  case (completed acts rec resp' pre)
  then show ?thesis by auto
qed

text \<open>The specification's History scenario: three model calls, three actions.\<close>

theorem one_action_per_model_call_witness:
  "query example_config (request ''Hi'' ''history'')
       (scripted_world [Inr [], Inr ''  '', Inr ''ok''])
     = (Inr \<lparr>final_output = ''ok'',
              wrapper_decision = ''ALLOW'',
              decision_summary =
                ''History: re-queried due to empty or duplicate output; allowed after 3 call(s).'',
              model_call_count = 3,
              raw_outputs = [[], ''  '', ''ok''],
              decisions_sequence = [''REQUERY'', ''REQUERY'', ''ALLOW'']\<rparr>,
        snd (query example_config (request ''Hi'' ''history'')
               (scripted_world [Inr [], Inr ''  '', Inr ''ok'']))) \<and>
   model_calls (snd (query example_config (request ''Hi'' ''history'')
                       (scripted_world [Inr [], Inr ''  '', Inr ''ok''])))
     = model_calls (scripted_world [Inr [], Inr ''  '', Inr ''ok'']) + 3"
proof -
  let ?w = "scripted_world [Inr [], Inr ''  '', Inr ''ok'']"
  let ?q = "query example_config (request ''Hi'' ''history'') ?w"
  let ?r = "\<lparr>final_output = ''ok'',
              wrapper_decision = ''ALLOW'',
              decision_summary =
                ''History: re-queried due to empty or duplicate output; allowed after 3 call(s).'',
              model_call_count = 3,
              raw_outputs = [[], ''  '', ''ok''],
              decisions_sequence = [''REQUERY'', ''REQUERY'', ''ALLOW'']\<rparr>"
  have f: "fst ?q = Inr ?r" by code_simp
  have h1: "?q = (Inr ?r, snd ?q)" by (rule prod_eqI) (simp_all add: f)
  from one_action_per_model_call[OF h1]
  have c: "model_calls (snd ?q) = model_calls ?w + 3" by simp
  show ?thesis by (rule conjI[OF h1], rule c)
qed


section \<open>The QueryBudget wrapper\<close>

text \<open>
  Claim C10.  \<open>QueryBudgetWrapper.step\<close> always returns ALLOW with the model output and
  records \<open>call_index + 1\<close> as its call count.  So every request under the QueryBudget
  wrapper with a non-empty stripped prompt and a budget of at least 1, whose first model
  call succeeds with \<open>out\<close>, makes exactly one model call and one \<open>step\<close> call, returns the
  decision sequence \<open>[ALLOW]\<close> and the final output \<open>out\<close>, and writes one trace record with
  call count 1, however large the budget is.
\<close>

theorem query_budget_single_call:
  assumes "resolve_wrapper_name cfg req = ''query_budget''"
    and "strip (req_prompt req) \<noteq> []"
    and "1 \<le> request_budget cfg req"
    and "model_complete world (model_calls world) (strip (req_prompt req)) = Inr out"
  shows "step (QueryBudgetWrapper m c) user_prompt model_output call_index
           = Inr ((ALLOW, model_output), QueryBudgetWrapper m (call_index + 1)) \<and>
         (\<exists>resp rec. query cfg req world
                       = (Inr resp, log_trace rec (advance world 1 [Inr ALLOW])) \<and>
            model_call_count resp = 1 \<and>
            raw_outputs resp = [out] \<and>
            decisions_sequence resp = [''ALLOW''] \<and>
            wrapper_decision resp = ''ALLOW'' \<and>
            final_output resp = out \<and>
            tr_total_model_calls rec = 1 \<and>
            tr_wrapper_state rec =
              QueryBudgetState 1 (case cfg_max_queries (cfg_query_budget cfg) of
                                    None \<Rightarrow> 2 | Some m \<Rightarrow> m))"
proof -
  let ?wn = "resolve_wrapper_name cfg req"
  let ?mq = "case cfg_max_queries (cfg_query_budget cfg) of None \<Rightarrow> 2 | Some m \<Rightarrow> m"
  have nb: "\<not> precheck_blocks cfg req" using assms(1) by (simp add: precheck_blocks_def)
  have gw: "get_wrapper ?wn (get_wrapper_config cfg ?wn) = Inr (QueryBudgetWrapper ?mq 0)"
    using assms(1) by (simp add: get_wrapper_def get_wrapper_config_def QueryBudgetWrapper_init_def)
  have lt: "(0::int) < request_budget cfg req" using assms(3) by simp
  have loop: "query_loop (strip (req_prompt req)) (request_budget cfg req)
                (QueryBudgetWrapper ?mq 0) [] [] [] 0 world
              = (Inr \<lparr>run_final_output = out, run_raw_outputs = [] @ [out],
                      run_decisions_sequence = [] @ [Action_value ALLOW],
                      run_wrapper = QueryBudgetWrapper ?mq (0 + 1)\<rparr>,
                 advance world (Suc 0) [Inr ALLOW])"
    by (rule query_loop_terminal[OF lt assms(4)]) simp_all
  let ?N = "request_budget cfg req"
  let ?R = "\<lparr>final_output = out,
              wrapper_decision = ''ALLOW'',
              decision_summary = summarize ''query_budget'' ''ALLOW'' [''ALLOW''] 1 ?N,
              model_call_count = 1,
              raw_outputs = [out],
              decisions_sequence = [''ALLOW'']\<rparr>"
  let ?T = "\<lparr>tr_timestamp = now world,
              tr_model_name = (case cfg_model_name cfg of
                                 None \<Rightarrow> ''google/gemini-2.5-flash-lite'' | Some n \<Rightarrow> n),
              tr_wrapper_name = ''query_budget'',
              tr_wrapper_config = cfg_query_budget cfg,
              tr_user_prompt = strip (req_prompt req),
              tr_raw_model_outputs = [out],
              tr_wrapper_decisions = [''ALLOW''],
              tr_final_output = out,
              tr_total_model_calls = 1,
              tr_wrapper_state = QueryBudgetState 1 ?mq\<rparr>"
  have q: "query cfg req world = (Inr ?R, log_trace ?T (advance world 1 [Inr ALLOW]))"
    using assms(1) loop
    by (simp add: query_not_blocked[OF assms(2) nb gw] query_run_def Let_def
          get_wrapper_config_def)
  have "\<exists>resp rec. query cfg req world
                       = (Inr resp, log_trace rec (advance world 1 [Inr ALLOW])) \<and>
            model_call_count resp = 1 \<and>
            raw_outputs resp = [out] \<and>
            decisions_sequence resp = [''ALLOW''] \<and>
            wrapper_decision resp = ''ALLOW'' \<and>
            final_output resp = out \<and>
            tr_total_model_calls rec = 1 \<and>
            tr_wrapper_state rec = QueryBudgetState 1 ?mq"
    by (rule exI[of _ ?R], rule exI[of _ ?T]) (simp add: q)
  then show ?thesis by simp
qed

text \<open>Budget 7 by caller override, a model with two answers ready: only the first is asked
  for.\<close>

theorem query_budget_single_call_witness:
  "resolve_wrapper_name example_config
     \<lparr>req_prompt = ''Hi'', req_wrapper_name = Some ''query_budget'', req_max_queries = Some 7\<rparr>
     = ''query_budget'' \<and>
   strip (req_prompt
     \<lparr>req_prompt = ''Hi'', req_wrapper_name = Some ''query_budget'', req_max_queries = Some 7\<rparr>)
     \<noteq> [] \<and>
   1 \<le> request_budget example_config
     \<lparr>req_prompt = ''Hi'', req_wrapper_name = Some ''query_budget'', req_max_queries = Some 7\<rparr> \<and>
   request_budget example_config
     \<lparr>req_prompt = ''Hi'', req_wrapper_name = Some ''query_budget'', req_max_queries = Some 7\<rparr>
     = 7 \<and>
   model_complete (scripted_world [Inr ''ok'', Inr ''other''])
     (model_calls (scripted_world [Inr ''ok'', Inr ''other'']))
     (strip (req_prompt
        \<lparr>req_prompt = ''Hi'', req_wrapper_name = Some ''query_budget'',
          req_max_queries = Some 7\<rparr>))
     = Inr ''ok'' \<and>
   step (QueryBudgetWrapper 7 0) ''Hi'' ''ok'' 0
     = Inr ((ALLOW, ''ok''), QueryBudgetWrapper 7 (0 + 1)) \<and>
   (\<exists>resp rec.
      query example_config
        \<lparr>req_prompt = ''Hi'', req_wrapper_name = Some ''query_budget'', req_max_queries = Some 7\<rparr>
        (scripted_world [Inr ''ok'', Inr ''other''])
        = (Inr resp, log_trace rec (advance (scripted_world [Inr ''ok'', Inr ''other'']) 1
                                      [Inr ALLOW])) \<and>
      model_call_count resp = 1 \<and>
      raw_outputs resp = [''ok''] \<and>
      decisions_sequence resp = [''ALLOW''] \<and>
      wrapper_decision resp = ''ALLOW'' \<and>
      final_output resp = ''ok'' \<and>
      tr_total_model_calls rec = 1 \<and>
      tr_wrapper_state rec =
        QueryBudgetState 1 (case cfg_max_queries (cfg_query_budget example_config) of
                              None \<Rightarrow> 2 | Some m \<Rightarrow> m))"
proof -
  let ?r = "\<lparr>req_prompt = ''Hi'', req_wrapper_name = Some ''query_budget'',
              req_max_queries = Some 7\<rparr>"
  let ?w = "scripted_world [Inr ''ok'', Inr ''other'']"
  have h1: "resolve_wrapper_name example_config ?r = ''query_budget''" by code_simp
  have h2: "strip (req_prompt ?r) \<noteq> []" by code_simp
  have h3: "1 \<le> request_budget example_config ?r" by code_simp
  have x: "request_budget example_config ?r = 7" by code_simp
  have h4: "model_complete ?w (model_calls ?w) (strip (req_prompt ?r)) = Inr ''ok''"
    by code_simp
  note c = query_budget_single_call[OF h1 h2 h3 h4, where m = 7 and c = 0
             and user_prompt = "''Hi''" and model_output = "''ok''" and call_index = 0]
  show ?thesis
    by (rule conjI[OF h1], rule conjI[OF h2], rule conjI[OF h3], rule conjI[OF x],
        rule conjI[OF h4], rule c)
qed


end
